theory Spec2Isabelle
  imports Complex_Main
begin

section \<open>Device numbering\<close>

text \<open>
  Modelled from the spec: the classification predicates \<open>is_keyboard\<close> and \<open>is_mouse\<close> are
  static methods of the \<open>Interception\<close> class (module \<open>interception\<close>), which is not among
  the source files; only their callers are (\<open>_left_click.py\<close>, \<open>_get_mouse.py\<close>,
  \<open>_monitor_mouse.py\<close>, \<open>inputs.py\<close>). The spec, section 4.2: "is_keyboard(id) iff id in
  [1,10]; is_mouse(id) iff id in [11,20]; both false for out-of-range ids". Device ids are
  Python integers.
\<close>

definition is_keyboard :: "int \<Rightarrow> bool" where
  "is_keyboard device \<longleftrightarrow> 1 \<le> device \<and> device \<le> 10"

definition is_mouse :: "int \<Rightarrow> bool" where
  "is_mouse device \<longleftrightarrow> 11 \<le> device \<and> device \<le> 20"

section \<open>Python strings\<close>

text \<open>
  A Python string is the list of its characters, each a Unicode code point. A string
  literal of the source is the list of the codes of its characters, all of them ASCII.
\<close>

type_synonym str = "nat list"

definition lit :: "string \<Rightarrow> str" where
  "lit s = map of_char s"

section \<open>Exceptions, strokes and the tables of the absent modules\<close>

text \<open>
  Every exception the modelled code can raise is a value. \<open>DriverFault\<close> stands for any
  exception raised inside the driver binding (the spec names NoPendingStrokeError,
  ContextClosedError, DecodeError and a wait timeout), numbered so that distinct faults can
  be told apart.
\<close>

datatype exn =
    DriverNotFoundError
  | InvalidDeviceError
  | UnknownKeyError str
  | UnknownButtonError str
  | KeyError str
  | ValueError
  | OverflowError
  | AttributeError
  | ZeroDivisionError
  | DriverFault nat

text \<open>
  \<open>KeyStroke(code, state, information)\<close> and
  \<open>MouseStroke(state, flags, rolling, x, y, information)\<close> of module \<open>strokes\<close>. The members
  of the integer enums of \<open>_consts\<close> are integers, as are the literal zeros the code passes.
\<close>

datatype stroke =
    KeyStroke int int int
  | MouseStroke int int int int int int

text \<open>
  \<open>stroke.code\<close>: only a key stroke has the attribute; on a mouse stroke the attribute
  access raises.
\<close>

fun code :: "stroke \<Rightarrow> exn + int" where
  "code (KeyStroke c s i) = Inr c"
| "code (MouseStroke s f r x y i) = Inl AttributeError"

text \<open>
  The constants and tables that \<open>inputs.py\<close> imports from modules that are not among the
  source files (\<open>_keycodes\<close>, \<open>_consts\<close>, \<open>_utils\<close>) are parameters of the model: every
  operation takes them as its first argument, and every theorem holds for all of them.
  \<open>KEYBOARD_MAPPING\<close> is the dictionary from key names to scancodes, \<open>from_string\<close> is
  \<open>MouseState.from_string\<close> (the pair of the down and the up state of a button),
  \<open>to_interception_coordinate\<close> is the helper of \<open>_utils\<close> that \<open>move_to\<close> calls.
  \<open>unicode_lower\<close> is \<open>str.lower\<close> of the Python runtime on strings that have a character
  outside ASCII, where the result is read off the Unicode tables of the runtime.
\<close>

record tables =
  KEYBOARD_MAPPING :: "str \<rightharpoonup> int"
  from_string :: "str \<Rightarrow> int \<times> int"
  unicode_lower :: "str \<Rightarrow> str"
  to_interception_coordinate :: "int \<Rightarrow> int \<Rightarrow> int \<times> int"
  KEY_DOWN :: int
  KEY_UP :: int
  MOUSE_MOVE_RELATIVE :: int
  MOUSE_MOVE_ABSOLUTE :: int
  MOUSE_WHEEL :: int
  MOUSE_WHEEL_UP :: int
  MOUSE_WHEEL_DOWN :: int
  FILTER_KEY_DOWN :: int
  FILTER_KEY_ALL :: int
  FILTER_MOUSE_LEFT_BUTTON_DOWN :: int
  FILTER_MOUSE_ALL :: int

section \<open>The module state of inputs.py\<close>

text \<open>
  What an operation does to the outside is recorded in order: a stroke handed to the
  module-level driver context with the device it was sent to, and a completed
  \<open>time.sleep\<close> with its length in seconds.
\<close>

datatype action = Send int stroke | Sleep real

record world =
  INTERCEPTION_INSTALLED :: bool
  trace :: "action list"
  cursor :: "int \<times> int"

definition MOUSE_BUTTON_DELAY :: real where
  "MOUSE_BUTTON_DELAY = 0.03"

definition KEY_PRESS_DELAY :: real where
  "KEY_PRESS_DELAY = 0.025"

definition keyboard :: int where
  "keyboard = 1"

definition mouse :: int where
  "mouse = 11"

definition SUPPORTED_BUTTONS :: "str set" where
  "SUPPORTED_BUTTONS =
     {lit ''left'', lit ''right'', lit ''middle'', lit ''mouse4'', lit ''mouse5''}"

text \<open>
  The module body: \<open>Interception()\<close> is tried, and any exception it raises is caught and
  remembered in the flag. The argument is the outcome of the constructor; loading the
  module itself has no failing branch.
\<close>

definition module_init :: "exn + unit \<Rightarrow> int \<times> int \<Rightarrow> world" where
  "module_init constructed pos =
     \<lparr>INTERCEPTION_INSTALLED = (case constructed of Inr u \<Rightarrow> True | Inl e \<Rightarrow> False),
      trace = [],
      cursor = pos\<rparr>"

subsection \<open>Sequencing with exceptions\<close>

text \<open>
  A statement takes the state and gives back either the raised exception (\<open>Inl\<close>) or its
  value (\<open>Inr\<close>), with the state as it is at that moment: what happened before an
  exception stays done.
\<close>

definition skip :: "'s \<Rightarrow> (exn + unit) \<times> 's" where
  "skip w = (Inr (), w)"

definition seq ::
  "('s \<Rightarrow> (exn + unit) \<times> 's) \<Rightarrow> ('s \<Rightarrow> (exn + 'a) \<times> 's) \<Rightarrow> 's \<Rightarrow> (exn + 'a) \<times> 's" where
  "seq f g w = (case f w of (Inl e, w') \<Rightarrow> (Inl e, w') | (Inr u, w') \<Rightarrow> g w')"

text \<open>\<open>for _ in range(n): body\<close>.\<close>

primrec repeat :: "nat \<Rightarrow> ('s \<Rightarrow> (exn + unit) \<times> 's) \<Rightarrow> 's \<Rightarrow> (exn + unit) \<times> 's" where
  "repeat 0 body = skip"
| "repeat (Suc n) body = seq body (repeat n body)"

text \<open>
  \<open>try: body finally: fin\<close>. The final block runs whatever the body did; an exception of
  the final block replaces the outcome of the body.
\<close>

definition try_finally ::
  "('s \<Rightarrow> (exn + 'a) \<times> 's) \<Rightarrow> ('s \<Rightarrow> (exn + unit) \<times> 's) \<Rightarrow> 's \<Rightarrow> (exn + 'a) \<times> 's" where
  "try_finally body fin w =
     (case body w of (r, w') \<Rightarrow>
        (case fin w' of (Inl e, w'') \<Rightarrow> (Inl e, w'') | (Inr u, w'') \<Rightarrow> (r, w'')))"

text \<open>The decorator \<open>requires_driver\<close>.\<close>

definition requires_driver ::
  "(world \<Rightarrow> (exn + 'a) \<times> world) \<Rightarrow> world \<Rightarrow> (exn + 'a) \<times> world" where
  "requires_driver func w =
     (if \<not> INTERCEPTION_INSTALLED w then (Inl DriverNotFoundError, w) else func w)"

subsection \<open>The library calls\<close>

text \<open>
  Modelled from the spec: \<open>send\<close> of the module-level driver context (class
  \<open>Interception\<close>, not among the source files). The spec, section 4.4: "send(device,
  stroke): non-blocking injection; fails with InvalidDeviceError if device is outside the
  registry's valid range". A stroke that is accepted is recorded.
\<close>

definition interception_send :: "int \<Rightarrow> stroke \<Rightarrow> world \<Rightarrow> (exn + unit) \<times> world" where
  "interception_send device s w =
     (if 1 \<le> device \<and> device \<le> 20 then (Inr (), w\<lparr>trace := trace w @ [Send device s]\<rparr>)
      else (Inl InvalidDeviceError, w))"

text \<open>
  \<open>time.sleep(secs)\<close> of the Python library (CPython 3.11 and later). The length is first
  converted to a signed 64-bit count of nanoseconds, rounded away from zero, and
  OverflowError is raised when it does not fit; then ValueError is raised for a negative
  length; otherwise the call returns after that time. \<open>sleep_error\<close> is the exception
  raised, if any. Lengths are the real numbers the decimal literals of the source
  denote; the rounding of floating-point numbers is not modelled.
\<close>

definition sleep_error :: "real \<Rightarrow> exn option" where
  "sleep_error secs =
     (let ns = (if 0 \<le> secs then \<lceil>secs * 10 ^ 9\<rceil> else \<lfloor>secs * 10 ^ 9\<rfloor>)
      in if ns < - (2 ^ 63) \<or> 2 ^ 63 \<le> ns then Some OverflowError
         else if secs < 0 then Some ValueError
         else None)"

definition sleep :: "real \<Rightarrow> world \<Rightarrow> (exn + unit) \<times> world" where
  "sleep secs w =
     (case sleep_error secs of
        Some e \<Rightarrow> (Inl e, w)
      | None \<Rightarrow> (Inr (), w\<lparr>trace := trace w @ [Sleep secs]\<rparr>))"

text \<open>
  \<open>delay or DEFAULT\<close> for an \<open>Optional[float]\<close>: \<open>None\<close> and zero are false in Python,
  every other number is true.
\<close>

definition or_default :: "real option \<Rightarrow> real \<Rightarrow> real" where
  "or_default delay d = (case delay of None \<Rightarrow> d | Some x \<Rightarrow> if x = 0 then d else x)"

text \<open>
  \<open>str.lower()\<close>. On a string of ASCII characters it maps the 26 capital letters to the
  small ones and keeps every other character. On a string with a character outside
  ASCII the result comes from the Unicode tables of the runtime (it may even differ in
  length), which is the parameter \<open>unicode_lower\<close>.
\<close>

definition lower_ascii :: "nat \<Rightarrow> nat" where
  "lower_ascii c = (if 65 \<le> c \<and> c \<le> 90 then c + 32 else c)"

definition is_ascii :: "str \<Rightarrow> bool" where
  "is_ascii s = list_all (\<lambda>c. c < 128) s"

definition lower :: "tables \<Rightarrow> str \<Rightarrow> str" where
  "lower T s = (if is_ascii s then map lower_ascii s else unicode_lower T s)"

subsection \<open>Validation\<close>

definition check_button_exists :: "str \<Rightarrow> world \<Rightarrow> (exn + unit) \<times> world" where
  "check_button_exists button w =
     (if button \<notin> SUPPORTED_BUTTONS then (Inl (UnknownButtonError button), w) else (Inr (), w))"

definition check_key_exists :: "tables \<Rightarrow> str \<Rightarrow> world \<Rightarrow> (exn + unit) \<times> world" where
  "check_key_exists T key w =
     (if KEYBOARD_MAPPING T key = None then (Inl (UnknownKeyError key), w) else (Inr (), w))"

text \<open>\<open>KEYBOARD_MAPPING[key]\<close>: a dictionary lookup raises KeyError on a missing key.\<close>

definition lookup_key :: "tables \<Rightarrow> str \<Rightarrow> exn + int" where
  "lookup_key T key = (case KEYBOARD_MAPPING T key of None \<Rightarrow> Inl (KeyError key) | Some k \<Rightarrow> Inr k)"

section \<open>Input actions\<close>

text \<open>
  \<open>move_to\<close> accepts a pair or two numbers and has \<open>_utils.normalize\<close> make two numbers
  of them; the model takes the two numbers. Its arguments after that are converted by
  the parameter \<open>to_interception_coordinate\<close>.
\<close>

definition move_to :: "tables \<Rightarrow> int \<Rightarrow> int \<Rightarrow> world \<Rightarrow> (exn + unit) \<times> world" where
  "move_to T x y =
     requires_driver
       (case to_interception_coordinate T x y of (x', y') \<Rightarrow>
          interception_send mouse (MouseStroke 0 (MOUSE_MOVE_ABSOLUTE T) 0 x' y' 0))"

definition move_relative :: "tables \<Rightarrow> int \<Rightarrow> int \<Rightarrow> world \<Rightarrow> (exn + unit) \<times> world" where
  "move_relative T x y =
     requires_driver (interception_send mouse (MouseStroke 0 (MOUSE_MOVE_RELATIVE T) 0 x y 0))"

text \<open>
  \<open>mouse_position\<close> is not decorated. The helper \<open>_utils.get_cursor_pos\<close> is not among
  the source files; what it returns is the \<open>cursor\<close> component of the state.
\<close>

definition mouse_position :: "world \<Rightarrow> (exn + int \<times> int) \<times> world" where
  "mouse_position w = (Inr (cursor w), w)"

definition key_down :: "tables \<Rightarrow> str \<Rightarrow> real option \<Rightarrow> world \<Rightarrow> (exn + unit) \<times> world" where
  "key_down T key delay =
     requires_driver
       (seq (check_key_exists T (lower T key))
          (\<lambda>w. case lookup_key T (lower T key) of
                 Inl e \<Rightarrow> (Inl e, w)
               | Inr kcode \<Rightarrow>
                   seq (interception_send keyboard (KeyStroke kcode (KEY_DOWN T) 0))
                     (sleep (or_default delay KEY_PRESS_DELAY)) w))"

definition key_up :: "tables \<Rightarrow> str \<Rightarrow> real option \<Rightarrow> world \<Rightarrow> (exn + unit) \<times> world" where
  "key_up T key delay =
     requires_driver
       (seq (check_key_exists T (lower T key))
          (\<lambda>w. case lookup_key T (lower T key) of
                 Inl e \<Rightarrow> (Inl e, w)
               | Inr kcode \<Rightarrow>
                   seq (interception_send keyboard (KeyStroke kcode (KEY_UP T) 0))
                     (sleep (or_default delay KEY_PRESS_DELAY)) w))"

definition mouse_down :: "tables \<Rightarrow> str \<Rightarrow> real option \<Rightarrow> world \<Rightarrow> (exn + unit) \<times> world" where
  "mouse_down T button delay =
     requires_driver
       (seq (check_button_exists button)
          (seq (interception_send mouse
                  (MouseStroke (fst (from_string T button)) (MOUSE_MOVE_ABSOLUTE T) 0 0 0 0))
             (sleep (or_default delay MOUSE_BUTTON_DELAY))))"

definition mouse_up :: "tables \<Rightarrow> str \<Rightarrow> real option \<Rightarrow> world \<Rightarrow> (exn + unit) \<times> world" where
  "mouse_up T button delay =
     requires_driver
       (seq (check_button_exists button)
          (seq (interception_send mouse
                  (MouseStroke (snd (from_string T button)) (MOUSE_MOVE_ABSOLUTE T) 0 0 0 0))
             (sleep (or_default delay MOUSE_BUTTON_DELAY))))"

text \<open>
  \<open>click(x, y, button, clicks, interval, delay)\<close>; the position is \<open>None\<close> or the pair that
  \<open>move_to\<close> receives. \<open>range(clicks)\<close> is empty for a count below one.
\<close>

definition click ::
  "tables \<Rightarrow> (int \<times> int) option \<Rightarrow> str \<Rightarrow> int \<Rightarrow> real \<Rightarrow> real \<Rightarrow> world \<Rightarrow> (exn + unit) \<times> world" where
  "click T pos button clicks interval delay =
     requires_driver
       (seq (check_button_exists button)
          (seq (case pos of None \<Rightarrow> skip | Some (x, y) \<Rightarrow> seq (move_to T x y) (sleep delay))
             (repeat (nat clicks)
                (seq (mouse_down T button None)
                   (seq (mouse_up T button None)
                      (if clicks > 1 then sleep interval else skip))))))"

definition left_click :: "tables \<Rightarrow> int \<Rightarrow> real \<Rightarrow> world \<Rightarrow> (exn + unit) \<times> world" where
  "left_click T clicks interval = requires_driver (click T None (lit ''left'') clicks interval 0.3)"

definition right_click :: "tables \<Rightarrow> int \<Rightarrow> real \<Rightarrow> world \<Rightarrow> (exn + unit) \<times> world" where
  "right_click T clicks interval = requires_driver (click T None (lit ''right'') clicks interval 0.3)"

definition press :: "tables \<Rightarrow> str \<Rightarrow> int \<Rightarrow> real \<Rightarrow> world \<Rightarrow> (exn + unit) \<times> world" where
  "press T key presses interval =
     requires_driver
       (seq (check_key_exists T (lower T key))
          (repeat (nat presses)
             (seq (key_down T (lower T key) None)
                (seq (key_up T (lower T key) None)
                   (if presses > 1 then sleep interval else skip)))))"

text \<open>
  \<open>for c in term.lower(): press(c); time.sleep(interval)\<close>, with the defaults of \<open>press\<close>
  (one press, interval 0.1).
\<close>

fun write_chars :: "tables \<Rightarrow> str \<Rightarrow> real \<Rightarrow> world \<Rightarrow> (exn + unit) \<times> world" where
  "write_chars T [] interval = skip"
| "write_chars T (c # cs) interval =
     seq (press T [c] 1 0.1) (seq (sleep interval) (write_chars T cs interval))"

definition "write" :: "tables \<Rightarrow> str \<Rightarrow> real \<Rightarrow> world \<Rightarrow> (exn + unit) \<times> world" where
  "write T trm interval = requires_driver (write_chars T (lower T trm) interval)"

definition scroll :: "tables \<Rightarrow> str \<Rightarrow> world \<Rightarrow> (exn + unit) \<times> world" where
  "scroll T direction =
     requires_driver
       (seq (interception_send mouse
               (MouseStroke (MOUSE_WHEEL T) 0
                  (if direction = lit ''up'' then MOUSE_WHEEL_UP T else MOUSE_WHEEL_DOWN T) 0 0 0))
          (sleep 0.025))"

text \<open>
  \<open>with hold_mouse(button): body\<close> and \<open>with hold_key(key): body\<close>: the generator runs up
  to its \<open>yield\<close> on entry, the body runs, and the \<open>finally\<close> releases.
\<close>

definition hold_mouse ::
  "tables \<Rightarrow> str \<Rightarrow> (world \<Rightarrow> (exn + unit) \<times> world) \<Rightarrow> world \<Rightarrow> (exn + unit) \<times> world" where
  "hold_mouse T button body =
     requires_driver
       (seq (mouse_down T button None) (try_finally body (mouse_up T button None)))"

definition hold_key ::
  "tables \<Rightarrow> str \<Rightarrow> (world \<Rightarrow> (exn + unit) \<times> world) \<Rightarrow> world \<Rightarrow> (exn + unit) \<times> world" where
  "hold_key T key body =
     requires_driver
       (seq (key_down T key None) (try_finally body (key_up T key None)))"

section \<open>Capture and listen loops\<close>

text \<open>
  Modelled from the spec: the driver context that each loop creates with \<open>Interception()\<close>
  (class \<open>Interception\<close>, not among the source files). The spec, section 4.4 and 4.6: \<open>wait\<close>
  blocks until a stroke is pending and returns its device, \<open>receive\<close> returns the pending
  stroke of that device, \<open>send\<close> injects a stroke, \<open>set_filter\<close> installs a mask for the
  devices a predicate selects, and the teardown releases the handle. The context is run
  against a simulated input stream: the events the filtered driver surfaces, in order.
  An event is a pending stroke with its device (and the exception \<open>send\<close> raises if the
  loop goes on to re-send it, if any), or an exception raised by \<open>wait\<close>, or one raised by
  \<open>receive\<close> after \<open>wait\<close> returned a device. When the stream is exhausted, \<open>wait\<close> never
  returns.
\<close>

datatype event =
    WaitRaises exn
  | ReceiveRaises int exn
  | Pending int stroke "exn option"

record "context" =
  pending :: "event list"
  filters :: "((int \<Rightarrow> bool) \<times> int) list"
  sent :: "(int \<times> stroke) list"
  destroyed :: bool

definition Interception :: "event list \<Rightarrow> context" where
  "Interception stream = \<lparr>pending = stream, filters = [], sent = [], destroyed = False\<rparr>"

definition set_filter :: "(int \<Rightarrow> bool) \<Rightarrow> int \<Rightarrow> context \<Rightarrow> context" where
  "set_filter predicate state_mask ctx = ctx\<lparr>filters := filters ctx @ [(predicate, state_mask)]\<rparr>"

definition destroy_context :: "context \<Rightarrow> context" where
  "destroy_context ctx = ctx\<lparr>destroyed := True\<rparr>"

text \<open>
  The body \<open>while True: ...\<close> of \<open>capture_keyboard\<close> and of \<open>listen_to_keyboard\<close> (the two
  are the same text), consuming the stream. The outcome is \<open>None\<close> when \<open>wait\<close> never
  returns, \<open>Some (Inr device)\<close> for \<open>return device\<close> and \<open>Some (Inl e)\<close> for an exception that
  leaves the loop. The calls of \<open>print\<close> are left out.
\<close>

fun keyboard_loop :: "event list \<Rightarrow> context \<Rightarrow> (exn + int) option \<times> context" where
  "keyboard_loop [] ctx = (None, ctx\<lparr>pending := []\<rparr>)"
| "keyboard_loop (WaitRaises e # rest) ctx = (Some (Inl e), ctx\<lparr>pending := rest\<rparr>)"
| "keyboard_loop (ReceiveRaises device e # rest) ctx = (Some (Inl e), ctx\<lparr>pending := rest\<rparr>)"
| "keyboard_loop (Pending device stroke send_fault # rest) ctx =
     (case code stroke of
        Inl e \<Rightarrow> (Some (Inl e), ctx\<lparr>pending := rest\<rparr>)
      | Inr c \<Rightarrow>
          if c = 1 then (Some (Inr device), ctx\<lparr>pending := rest\<rparr>)
          else (case send_fault of
                  Some e \<Rightarrow> (Some (Inl e), ctx\<lparr>pending := rest\<rparr>)
                | None \<Rightarrow> keyboard_loop rest (ctx\<lparr>sent := sent ctx @ [(device, stroke)]\<rparr>)))"

text \<open>
  The body of \<open>capture_mouse\<close> and of \<open>listen_to_mouse\<close>: \<open>stroke.code\<close> is read only when
  the device is a keyboard (\<open>and\<close> does not evaluate its right side otherwise).
\<close>

fun mouse_loop :: "event list \<Rightarrow> context \<Rightarrow> (exn + int) option \<times> context" where
  "mouse_loop [] ctx = (None, ctx\<lparr>pending := []\<rparr>)"
| "mouse_loop (WaitRaises e # rest) ctx = (Some (Inl e), ctx\<lparr>pending := rest\<rparr>)"
| "mouse_loop (ReceiveRaises device e # rest) ctx = (Some (Inl e), ctx\<lparr>pending := rest\<rparr>)"
| "mouse_loop (Pending device stroke send_fault # rest) ctx =
     (case (if is_keyboard device then code stroke else Inr 0) of
        Inl e \<Rightarrow> (Some (Inl e), ctx\<lparr>pending := rest\<rparr>)
      | Inr c \<Rightarrow>
          if is_keyboard device \<and> c = 1 then (Some (Inr device), ctx\<lparr>pending := rest\<rparr>)
          else (case send_fault of
                  Some e \<Rightarrow> (Some (Inl e), ctx\<lparr>pending := rest\<rparr>)
                | None \<Rightarrow> mouse_loop rest (ctx\<lparr>sent := sent ctx @ [(device, stroke)]\<rparr>)))"

text \<open>
  \<open>try: loop finally: context._destroy_context()\<close>: the teardown runs when the loop is
  left, by \<open>return\<close> or by an exception; while \<open>wait\<close> blocks nothing is left.
\<close>

definition finally_destroy ::
  "(exn + int) option \<times> context \<Rightarrow> (exn + int) option \<times> context option" where
  "finally_destroy r =
     (case r of
        (None, ctx) \<Rightarrow> (None, Some ctx)
      | (Some out, ctx) \<Rightarrow> (Some out, Some (destroy_context ctx)))"

text \<open>
  The four loops. Each is decorated with \<open>requires_driver\<close>: without the driver it raises
  before a context is created (no context: \<open>None\<close>). The stream is what the new context
  will surface.
\<close>

definition capture_keyboard ::
  "tables \<Rightarrow> event list \<Rightarrow> world \<Rightarrow> (exn + int) option \<times> context option" where
  "capture_keyboard T stream w =
     (if \<not> INTERCEPTION_INSTALLED w then (Some (Inl DriverNotFoundError), None)
      else finally_destroy
             (keyboard_loop stream
                (set_filter is_keyboard (FILTER_KEY_DOWN T) (Interception stream))))"

definition capture_mouse ::
  "tables \<Rightarrow> event list \<Rightarrow> world \<Rightarrow> (exn + int) option \<times> context option" where
  "capture_mouse T stream w =
     (if \<not> INTERCEPTION_INSTALLED w then (Some (Inl DriverNotFoundError), None)
      else finally_destroy
             (mouse_loop stream
                (set_filter is_keyboard (FILTER_KEY_DOWN T)
                   (set_filter is_mouse (FILTER_MOUSE_LEFT_BUTTON_DOWN T) (Interception stream)))))"

definition listen_to_keyboard ::
  "tables \<Rightarrow> event list \<Rightarrow> world \<Rightarrow> (exn + int) option \<times> context option" where
  "listen_to_keyboard T stream w =
     (if \<not> INTERCEPTION_INSTALLED w then (Some (Inl DriverNotFoundError), None)
      else finally_destroy
             (keyboard_loop stream
                (set_filter is_keyboard (FILTER_KEY_ALL T) (Interception stream))))"

definition listen_to_mouse ::
  "tables \<Rightarrow> event list \<Rightarrow> world \<Rightarrow> (exn + int) option \<times> context option" where
  "listen_to_mouse T stream w =
     (if \<not> INTERCEPTION_INSTALLED w then (Some (Inl DriverNotFoundError), None)
      else finally_destroy
             (mouse_loop stream
                (set_filter is_keyboard (FILTER_KEY_DOWN T)
                   (set_filter is_mouse (FILTER_MOUSE_ALL T) (Interception stream)))))"

section \<open>Pixel to driver coordinates\<close>

text \<open>
  \<open>int((0xFFFF * x) / screen_width)\<close> of \<open>_left_click.py\<close>, \<open>_get_mouse.py\<close> and
  \<open>_mouse_scrolling.py\<close>, where the result is a coordinate of a stroke flagged
  MOUSE_MOVE_ABSOLUTE: the quotient of two integers, truncated towards zero by \<open>int\<close>;
  dividing by zero raises. The quotient is taken exactly (the rounding of the
  floating-point division is not modelled).
\<close>

definition driver_coordinate :: "int \<Rightarrow> int \<Rightarrow> exn + int" where
  "driver_coordinate x dimension =
     (if dimension = 0 then Inl ZeroDivisionError
      else let q = real_of_int (0xFFFF * x) / real_of_int dimension
           in Inr (if 0 \<le> q then \<lfloor>q\<rfloor> else \<lceil>q\<rceil>))"

text \<open>
  The reference value of the spec, \<open>round(65535*x/W)\<close>, with the rounding of Python's
  \<open>round\<close>: to the nearest integer, a tie to the even one.
\<close>

definition py_round :: "real \<Rightarrow> int" where
  "py_round q =
     (let f = \<lfloor>q\<rfloor>; r = q - real_of_int f
      in if r < 1 / 2 then f else if 1 / 2 < r then f + 1 else if even f then f else f + 1)"

definition reference_coordinate :: "int \<Rightarrow> int \<Rightarrow> int" where
  "reference_coordinate x dimension = py_round (65535 * real_of_int x / real_of_int dimension)"

section \<open>Concrete tables for evaluation\<close>

text \<open>
  An instance of the parameters, used where a statement is evaluated at a concrete call.
  The scancodes are those of class \<open>ScanCode\<close> in \<open>_get_keyboard.py\<close> (ESC = 1, NUM1..NUM0 =
  2..11, MINUS = 12, M = 50), with KEY_DOWN = 0 and KEY_UP = 1 from the same class; the
  button states, flags and masks are distinct numbers, the coordinate helper is the
  conversion of the scripts for a screen of 1920 by 1080 pixels, and strings with a
  character outside ASCII are left as they are by lowercasing.
\<close>

definition sample_from_string :: "str \<Rightarrow> int \<times> int" where
  "sample_from_string button =
     (if button = lit ''left'' then (1, 2)
      else if button = lit ''right'' then (4, 8)
      else if button = lit ''middle'' then (16, 32)
      else if button = lit ''mouse4'' then (64, 128)
      else (256, 512))"

definition sample_coordinate :: "int \<Rightarrow> int \<Rightarrow> int \<times> int" where
  "sample_coordinate x y = ((0xFFFF * x) div 1920, (0xFFFF * y) div 1080)"

definition sample_tables :: tables where
  "sample_tables =
     \<lparr>KEYBOARD_MAPPING =
        map_of [(lit ''esc'', 1), (lit ''1'', 2), (lit ''2'', 3), (lit ''3'', 4),
                (lit ''4'', 5), (lit ''5'', 6), (lit ''6'', 7), (lit ''7'', 8),
                (lit ''8'', 9), (lit ''9'', 10), (lit ''0'', 11), (lit ''-'', 12),
                (lit ''m'', 50)],
      from_string = sample_from_string,
      unicode_lower = (\<lambda>s. s),
      to_interception_coordinate = sample_coordinate,
      KEY_DOWN = 0, KEY_UP = 1,
      MOUSE_MOVE_RELATIVE = 0, MOUSE_MOVE_ABSOLUTE = 1,
      MOUSE_WHEEL = 1024, MOUSE_WHEEL_UP = 120, MOUSE_WHEEL_DOWN = - 120,
      FILTER_KEY_DOWN = 1, FILTER_KEY_ALL = 65535,
      FILTER_MOUSE_LEFT_BUTTON_DOWN = 1, FILTER_MOUSE_ALL = 65535\<rparr>"

text \<open>The module state after a load with the driver present, and after one without.\<close>

definition world_installed :: world where
  "world_installed = module_init (Inr ()) (0, 0)"

definition world_missing :: world where
  "world_missing = module_init (Inl DriverNotFoundError) (0, 0)"

section \<open>Expected traces\<close>

text \<open>
  What \<open>press\<close> with its defaults leaves in the trace for a one-character name that is
  in the table, and what one character of \<open>write\<close> leaves: the same, then the interval.
\<close>

definition pressed :: "tables \<Rightarrow> nat \<Rightarrow> action list" where
  "pressed T c =
     (case KEYBOARD_MAPPING T [c] of
        None \<Rightarrow> []
      | Some kcode \<Rightarrow>
          [Send keyboard (KeyStroke kcode (KEY_DOWN T) 0), Sleep KEY_PRESS_DELAY,
           Send keyboard (KeyStroke kcode (KEY_UP T) 0), Sleep KEY_PRESS_DELAY])"

definition typed :: "tables \<Rightarrow> real \<Rightarrow> nat \<Rightarrow> action list" where
  "typed T interval c = pressed T c @ [Sleep interval]"

text \<open>
  A simulated input stream of strokes that arrive one after the other with no fault of
  the driver: each is surfaced by \<open>wait\<close> and \<open>receive\<close>, and \<open>send\<close> accepts it.
\<close>

definition surfaced :: "(int \<times> stroke) list \<Rightarrow> event list" where
  "surfaced strokes = map (\<lambda>(device, s). Pending device s None) strokes"

section \<open>Auxiliary facts\<close>

lemma lower_ascii_idem: "lower_ascii (lower_ascii c) = lower_ascii c"
  by (simp add: lower_ascii_def)

lemma lower_ascii_small: "c < 128 \<Longrightarrow> lower_ascii c < 128"
  by (simp add: lower_ascii_def)



lemma lower_chars_stable:
  assumes "is_ascii s" "x \<in> set (lower T s)"
  shows "lower T [x] = [x]"
proof -
  from assms obtain y where y: "y \<in> set s" "x = lower_ascii y"
    by (auto simp: lower_def)
  with assms(1) have "y < 128"
    by (simp add: is_ascii_def list_all_iff)
  then have "is_ascii [x]"
    using y(2) by (simp add: is_ascii_def lower_ascii_small)
  then show ?thesis
    by (simp add: lower_def y(2) lower_ascii_idem)
qed

lemma seq_Inr: "f w = (Inr u, w') \<Longrightarrow> seq f g w = g w'"
  by (simp add: seq_def)

lemma seq_Inl: "f w = (Inl e, w') \<Longrightarrow> seq f g w = (Inl e, w')"
  by (simp add: seq_def)

lemma sleep_error_eq:
  "sleep_error d =
     (if d * 10 ^ 9 < - (2 ^ 63) \<or> 2 ^ 63 - 1 < d * 10 ^ 9 then Some OverflowError
      else if d < 0 then Some ValueError
      else None)"
proof (cases "0 \<le> d")
  case True
  then have "0 \<le> d * 10 ^ 9" by simp
  then have p: "0 \<le> \<lceil>d * 10 ^ 9\<rceil>" by linarith
  have "\<lceil>d * 10 ^ 9\<rceil> \<le> 2 ^ 63 - 1 \<longleftrightarrow> d * 10 ^ 9 \<le> real_of_int (2 ^ 63 - 1)"
    by (rule ceiling_le_iff)
  then have c: "2 ^ 63 \<le> \<lceil>d * 10 ^ 9\<rceil> \<longleftrightarrow> 2 ^ 63 - 1 < d * 10 ^ 9"
    by (simp add: not_le [symmetric])
  have n: "\<not> \<lceil>d * 10 ^ 9\<rceil> < - (2 ^ 63)" "\<not> d * 10 ^ 9 < - (2 ^ 63)"
    using p True by simp_all
  show ?thesis
    using True c n by (simp add: sleep_error_def Let_def)
next
  case False
  then have neg: "d < 0" by simp
  then have "d * 10 ^ 9 < 0" by (simp add: mult_neg_pos)
  then have p: "\<lfloor>d * 10 ^ 9\<rfloor> < 0" "\<not> 2 ^ 63 - 1 < d * 10 ^ 9"
    by (simp_all add: floor_less_iff)
  have "\<lfloor>d * 10 ^ 9\<rfloor> < - (2 ^ 63) \<longleftrightarrow> d * 10 ^ 9 < real_of_int (- (2 ^ 63))"
    by (rule floor_less_iff)
  then have c: "\<lfloor>d * 10 ^ 9\<rfloor> < - (2 ^ 63) \<longleftrightarrow> d * 10 ^ 9 < - (2 ^ 63)"
    by simp
  have n: "\<not> 2 ^ 63 \<le> \<lfloor>d * 10 ^ 9\<rfloor>"
    using p(1) by simp
  show ?thesis
    using neg c n p(2) by (simp add: sleep_error_def Let_def)
qed

lemma sleep_error_None: "sleep_error d = None \<longleftrightarrow> 0 \<le> d \<and> d * 10 ^ 9 \<le> 2 ^ 63 - 1"
  by (auto simp: sleep_error_eq)

lemma sleep_ok: "0 \<le> d \<Longrightarrow> d * 10 ^ 9 \<le> 2 ^ 63 - 1 \<Longrightarrow> sleep_error d = None"
  by (simp add: sleep_error_None)

lemma sleep_defaults:
  "sleep_error KEY_PRESS_DELAY = None" "sleep_error MOUSE_BUTTON_DELAY = None"
  "or_default None KEY_PRESS_DELAY = KEY_PRESS_DELAY"
  "or_default None MOUSE_BUTTON_DELAY = MOUSE_BUTTON_DELAY"
  by (simp_all add: sleep_error_None KEY_PRESS_DELAY_def MOUSE_BUTTON_DELAY_def or_default_def)

lemma device_ranges: "1 \<le> keyboard" "keyboard \<le> 20" "1 \<le> mouse" "mouse \<le> 20"
  by (simp_all add: keyboard_def mouse_def)

lemma send_sleep:
  assumes "1 \<le> device" "device \<le> 20"
  shows "seq (interception_send device s) (sleep secs) w =
           (case sleep_error secs of
              None \<Rightarrow> (Inr (), w\<lparr>trace := trace w @ [Send device s, Sleep secs]\<rparr>)
            | Some e \<Rightarrow> (Inl e, w\<lparr>trace := trace w @ [Send device s]\<rparr>))"
  using assms by (simp add: seq_def interception_send_def sleep_def split: option.splits)

lemma key_down_sends:
  assumes "INTERCEPTION_INSTALLED w" "KEYBOARD_MAPPING T (lower T key) = Some kcode"
  shows "key_down T key delay w =
           (case sleep_error (or_default delay KEY_PRESS_DELAY) of
              None \<Rightarrow>
                (Inr (), w\<lparr>trace := trace w @
                   [Send keyboard (KeyStroke kcode (KEY_DOWN T) 0),
                    Sleep (or_default delay KEY_PRESS_DELAY)]\<rparr>)
            | Some e \<Rightarrow>
                (Inl e, w\<lparr>trace := trace w @ [Send keyboard (KeyStroke kcode (KEY_DOWN T) 0)]\<rparr>))"
  using assms
  by (simp add: key_down_def requires_driver_def check_key_exists_def lookup_key_def
      seq_Inr [where w' = w and u = "()"] send_sleep device_ranges)

lemma key_up_sends:
  assumes "INTERCEPTION_INSTALLED w" "KEYBOARD_MAPPING T (lower T key) = Some kcode"
  shows "key_up T key delay w =
           (case sleep_error (or_default delay KEY_PRESS_DELAY) of
              None \<Rightarrow>
                (Inr (), w\<lparr>trace := trace w @
                   [Send keyboard (KeyStroke kcode (KEY_UP T) 0),
                    Sleep (or_default delay KEY_PRESS_DELAY)]\<rparr>)
            | Some e \<Rightarrow>
                (Inl e, w\<lparr>trace := trace w @ [Send keyboard (KeyStroke kcode (KEY_UP T) 0)]\<rparr>))"
  using assms
  by (simp add: key_up_def requires_driver_def check_key_exists_def lookup_key_def
      seq_Inr [where w' = w and u = "()"] send_sleep device_ranges)

lemma mouse_down_sends:
  assumes "INTERCEPTION_INSTALLED w" "button \<in> SUPPORTED_BUTTONS"
  shows "mouse_down T button delay w =
           (case sleep_error (or_default delay MOUSE_BUTTON_DELAY) of
              None \<Rightarrow>
                (Inr (), w\<lparr>trace := trace w @
                   [Send mouse (MouseStroke (fst (from_string T button)) (MOUSE_MOVE_ABSOLUTE T) 0 0 0 0),
                    Sleep (or_default delay MOUSE_BUTTON_DELAY)]\<rparr>)
            | Some e \<Rightarrow>
                (Inl e, w\<lparr>trace := trace w @
                   [Send mouse (MouseStroke (fst (from_string T button)) (MOUSE_MOVE_ABSOLUTE T) 0 0 0 0)]\<rparr>))"
  using assms
  by (simp add: mouse_down_def requires_driver_def check_button_exists_def
      seq_Inr [where w' = w and u = "()"] send_sleep device_ranges)

lemma mouse_up_sends:
  assumes "INTERCEPTION_INSTALLED w" "button \<in> SUPPORTED_BUTTONS"
  shows "mouse_up T button delay w =
           (case sleep_error (or_default delay MOUSE_BUTTON_DELAY) of
              None \<Rightarrow>
                (Inr (), w\<lparr>trace := trace w @
                   [Send mouse (MouseStroke (snd (from_string T button)) (MOUSE_MOVE_ABSOLUTE T) 0 0 0 0),
                    Sleep (or_default delay MOUSE_BUTTON_DELAY)]\<rparr>)
            | Some e \<Rightarrow>
                (Inl e, w\<lparr>trace := trace w @
                   [Send mouse (MouseStroke (snd (from_string T button)) (MOUSE_MOVE_ABSOLUTE T) 0 0 0 0)]\<rparr>))"
  using assms
  by (simp add: mouse_up_def requires_driver_def check_button_exists_def
      seq_Inr [where w' = w and u = "()"] send_sleep device_ranges)

lemma repeat_trace:
  assumes "\<And>w. INTERCEPTION_INSTALLED w \<Longrightarrow> body w = (Inr (), w\<lparr>trace := trace w @ as\<rparr>)"
    and "INTERCEPTION_INSTALLED w"
  shows "repeat n body w = (Inr (), w\<lparr>trace := trace w @ concat (replicate n as)\<rparr>)"
  using assms(2)
proof (induction n arbitrary: w)
  case 0
  then show ?case by (simp add: skip_def)
next
  case (Suc n)
  have "repeat (Suc n) body w = repeat n body (w\<lparr>trace := trace w @ as\<rparr>)"
    using assms(1) [OF Suc.prems] by (simp add: seq_def)
  also have "\<dots> = (Inr (), w\<lparr>trace := trace w @ as @ concat (replicate n as)\<rparr>)"
    using Suc.IH [of "w\<lparr>trace := trace w @ as\<rparr>"] Suc.prems by simp
  finally show ?case by simp
qed

lemma press_presses:
  assumes "INTERCEPTION_INSTALLED w" "KEYBOARD_MAPPING T (lower T key) = Some kcode"
    and "lower T (lower T key) = lower T key"
    and "presses \<le> 1 \<or> sleep_error interval = None"
  shows "press T key presses interval w =
           (Inr (), w\<lparr>trace := trace w @ concat (replicate (nat presses)
              ([Send keyboard (KeyStroke kcode (KEY_DOWN T) 0), Sleep KEY_PRESS_DELAY,
                Send keyboard (KeyStroke kcode (KEY_UP T) 0), Sleep KEY_PRESS_DELAY]
               @ (if presses > 1 then [Sleep interval] else [])))\<rparr>)"
proof -
  let ?as = "[Send keyboard (KeyStroke kcode (KEY_DOWN T) 0), Sleep KEY_PRESS_DELAY,
              Send keyboard (KeyStroke kcode (KEY_UP T) 0), Sleep KEY_PRESS_DELAY]
             @ (if presses > 1 then [Sleep interval] else [])"
  let ?body = "seq (key_down T (lower T key) None)
                 (seq (key_up T (lower T key) None) (if presses > 1 then sleep interval else skip))"
  have km: "KEYBOARD_MAPPING T (lower T (lower T key)) = Some kcode"
    using assms(2,3) by simp
  have body: "?body v = (Inr (), v\<lparr>trace := trace v @ ?as\<rparr>)" if "INTERCEPTION_INSTALLED v" for v
    using that assms(4) key_down_sends [OF that km, of None]
      key_up_sends [OF _ km, of "v\<lparr>trace := trace v @ [Send keyboard (KeyStroke kcode (KEY_DOWN T) 0), Sleep KEY_PRESS_DELAY]\<rparr>" None]
    by (auto simp add: sleep_defaults seq_def sleep_def skip_def)
  show ?thesis
    using assms(1,2) repeat_trace [of ?body ?as w "nat presses", OF body]
    by (simp add: press_def requires_driver_def check_key_exists_def seq_def)
qed

lemma click_clicks:
  assumes "INTERCEPTION_INSTALLED w" "button \<in> SUPPORTED_BUTTONS"
    and "clicks \<le> 1 \<or> sleep_error interval = None"
  shows "click T None button clicks interval delay w =
           (Inr (), w\<lparr>trace := trace w @ concat (replicate (nat clicks)
              ([Send mouse (MouseStroke (fst (from_string T button)) (MOUSE_MOVE_ABSOLUTE T) 0 0 0 0),
                Sleep MOUSE_BUTTON_DELAY,
                Send mouse (MouseStroke (snd (from_string T button)) (MOUSE_MOVE_ABSOLUTE T) 0 0 0 0),
                Sleep MOUSE_BUTTON_DELAY]
               @ (if clicks > 1 then [Sleep interval] else [])))\<rparr>)"
proof -
  let ?dn = "Send mouse (MouseStroke (fst (from_string T button)) (MOUSE_MOVE_ABSOLUTE T) 0 0 0 0)"
  let ?up = "Send mouse (MouseStroke (snd (from_string T button)) (MOUSE_MOVE_ABSOLUTE T) 0 0 0 0)"
  let ?as = "[?dn, Sleep MOUSE_BUTTON_DELAY, ?up, Sleep MOUSE_BUTTON_DELAY]
             @ (if clicks > 1 then [Sleep interval] else [])"
  let ?body = "seq (mouse_down T button None)
                 (seq (mouse_up T button None) (if clicks > 1 then sleep interval else skip))"
  have body: "?body v = (Inr (), v\<lparr>trace := trace v @ ?as\<rparr>)" if "INTERCEPTION_INSTALLED v" for v
    using that assms(3) mouse_down_sends [OF that assms(2), of T None]
      mouse_up_sends [OF _ assms(2), of "v\<lparr>trace := trace v @ [?dn, Sleep MOUSE_BUTTON_DELAY]\<rparr>" T None]
    by (auto simp add: sleep_defaults seq_def sleep_def skip_def)
  show ?thesis
    using assms(1,2) repeat_trace [of ?body ?as w "nat clicks", OF body]
    by (simp add: click_def requires_driver_def check_button_exists_def seq_def skip_def)
qed

lemma press_unknown:
  assumes "INTERCEPTION_INSTALLED w" "KEYBOARD_MAPPING T (lower T key) = None"
  shows "press T key presses interval w = (Inl (UnknownKeyError (lower T key)), w)"
  using assms by (simp add: press_def requires_driver_def check_key_exists_def seq_def)

lemma press_one:
  assumes "INTERCEPTION_INSTALLED w" "KEYBOARD_MAPPING T [x] \<noteq> None" "lower T [x] = [x]"
  shows "press T [x] 1 0.1 w = (Inr (), w\<lparr>trace := trace w @ pressed T x\<rparr>)"
proof -
  from assms(2) obtain k where k: "KEYBOARD_MAPPING T [x] = Some k" by auto
  show ?thesis
    using press_presses [of w T "[x]" k 1 "0.1"] assms(1,3) k by (simp add: pressed_def)
qed

lemma write_chars_stops:
  assumes "INTERCEPTION_INSTALLED w" "sleep_error interval = None"
    and "\<forall>x\<in>set pre. KEYBOARD_MAPPING T [x] \<noteq> None" "KEYBOARD_MAPPING T [c] = None"
    and "\<forall>x\<in>set (pre @ [c]). lower T [x] = [x]"
  shows "write_chars T (pre @ c # post) interval w =
           (Inl (UnknownKeyError [c]), w\<lparr>trace := trace w @ concat (map (typed T interval) pre)\<rparr>)"
  using assms(1,3,5)
proof (induction pre arbitrary: w)
  case Nil
  then show ?case
    using press_unknown [of w T "[c]" 1 "0.1"] assms(4) by (simp add: seq_def)
next
  case (Cons x pre)
  have "press T [x] 1 0.1 w = (Inr (), w\<lparr>trace := trace w @ pressed T x\<rparr>)"
    using press_one [of w T x] Cons.prems by simp
  then have "write_chars T ((x # pre) @ c # post) interval w =
      write_chars T (pre @ c # post) interval (w\<lparr>trace := trace w @ typed T interval x\<rparr>)"
    using assms(2) by (simp add: seq_def sleep_def typed_def)
  then show ?case
    using Cons.IH [of "w\<lparr>trace := trace w @ typed T interval x\<rparr>"] Cons.prems by simp
qed

lemma write_chars_sleep_fails:
  assumes "INTERCEPTION_INSTALLED w" "sleep_error interval = Some e"
    and "KEYBOARD_MAPPING T [x] \<noteq> None" "lower T [x] = [x]"
  shows "write_chars T (x # cs) interval w = (Inl e, w\<lparr>trace := trace w @ pressed T x\<rparr>)"
  using press_one [OF assms(1,3,4)] assms(2) by (simp add: seq_def sleep_def)

lemma key_down_unknown:
  assumes "INTERCEPTION_INSTALLED w" "KEYBOARD_MAPPING T (lower T key) = None"
  shows "key_down T key delay w = (Inl (UnknownKeyError (lower T key)), w)"
  using assms by (simp add: key_down_def requires_driver_def check_key_exists_def seq_def)

lemma key_up_unknown:
  assumes "INTERCEPTION_INSTALLED w" "KEYBOARD_MAPPING T (lower T key) = None"
  shows "key_up T key delay w = (Inl (UnknownKeyError (lower T key)), w)"
  using assms by (simp add: key_up_def requires_driver_def check_key_exists_def seq_def)

lemma hold_key_unknown:
  assumes "INTERCEPTION_INSTALLED w" "KEYBOARD_MAPPING T (lower T key) = None"
  shows "hold_key T key body w = (Inl (UnknownKeyError (lower T key)), w)"
  using assms key_down_unknown [OF assms, of None]
  by (simp add: hold_key_def requires_driver_def seq_def)

lemma mouse_down_unknown:
  assumes "INTERCEPTION_INSTALLED w" "button \<notin> SUPPORTED_BUTTONS"
  shows "mouse_down T button delay w = (Inl (UnknownButtonError button), w)"
  using assms by (simp add: mouse_down_def requires_driver_def check_button_exists_def seq_def)

lemma mouse_up_unknown:
  assumes "INTERCEPTION_INSTALLED w" "button \<notin> SUPPORTED_BUTTONS"
  shows "mouse_up T button delay w = (Inl (UnknownButtonError button), w)"
  using assms by (simp add: mouse_up_def requires_driver_def check_button_exists_def seq_def)

lemma click_unknown:
  assumes "INTERCEPTION_INSTALLED w" "button \<notin> SUPPORTED_BUTTONS"
  shows "click T pos button clicks interval delay w = (Inl (UnknownButtonError button), w)"
  using assms by (simp add: click_def requires_driver_def check_button_exists_def seq_def)

lemma hold_mouse_unknown:
  assumes "INTERCEPTION_INSTALLED w" "button \<notin> SUPPORTED_BUTTONS"
  shows "hold_mouse T button body w = (Inl (UnknownButtonError button), w)"
  using assms mouse_down_unknown [OF assms, of T None]
  by (simp add: hold_mouse_def requires_driver_def seq_def)

lemma write_stops:
  assumes "INTERCEPTION_INSTALLED w" "lower T trm = pre @ c # post"
    and "\<forall>x\<in>set pre. KEYBOARD_MAPPING T [x] \<noteq> None" "KEYBOARD_MAPPING T [c] = None"
    and "\<forall>x\<in>set (pre @ [c]). lower T [x] = [x]"
  shows "write T trm interval w =
           (case sleep_error interval of
              None \<Rightarrow>
                (Inl (UnknownKeyError [c]),
                 w\<lparr>trace := trace w @ concat (map (typed T interval) pre)\<rparr>)
            | Some e \<Rightarrow>
                (case pre of
                   [] \<Rightarrow> (Inl (UnknownKeyError [c]), w)
                 | x # later \<Rightarrow> (Inl e, w\<lparr>trace := trace w @ pressed T x\<rparr>)))"
proof (cases "sleep_error interval")
  case None
  then show ?thesis
    using write_chars_stops [OF assms(1) None assms(3,4,5), of post] assms(1,2)
    by (simp add: write_def requires_driver_def)
next
  case (Some e)
  show ?thesis
  proof (cases pre)
    case Nil
    then show ?thesis
      using Some assms(1,2,4,5) press_unknown [of w T "[c]" 1 "0.1"]
      by (simp add: write_def requires_driver_def seq_def)
  next
    case (Cons x later)
    then show ?thesis
      using Some assms(1,2,3,5) write_chars_sleep_fails [OF assms(1) Some, of T x "later @ c # post"]
      by (simp add: write_def requires_driver_def)
  qed
qed

lemma installed: "INTERCEPTION_INSTALLED world_installed"
  by (simp add: world_installed_def module_init_def)

lemma or_default_nonzero: "dflt \<noteq> 0 \<Longrightarrow> or_default delay dflt \<noteq> 0"
  by (simp add: or_default_def split: option.splits)

lemma sleep_error_fails:
  "d < 0 \<or> 2 ^ 63 - 1 < d * 10 ^ 9 \<Longrightarrow>
   sleep_error d =
     Some (if d * 10 ^ 9 < - (2 ^ 63) \<or> 2 ^ 63 - 1 < d * 10 ^ 9 then OverflowError else ValueError)"
  by (auto simp: sleep_error_eq)




lemma keyboard_loop_first_escape:
  assumes "\<forall>(d, s)\<in>set earlier. \<exists>c. code s = Inr c \<and> c \<noteq> 1" "code esc = Inr 1"
  shows "keyboard_loop (surfaced earlier @ Pending device esc fault # rest) ctx =
           (Some (Inr device), ctx\<lparr>pending := rest, sent := sent ctx @ earlier\<rparr>)"
  using assms(1)
proof (induction earlier arbitrary: ctx)
  case Nil
  then show ?case using assms(2) by (simp add: surfaced_def)
next
  case (Cons p earlier)
  obtain d s where p: "p = (d, s)" by (cases p)
  with Cons.prems obtain c where c: "code s = Inr c" "c \<noteq> 1" by auto
  have "keyboard_loop (surfaced (p # earlier) @ Pending device esc fault # rest) ctx =
        keyboard_loop (surfaced earlier @ Pending device esc fault # rest)
          (ctx\<lparr>sent := sent ctx @ [(d, s)]\<rparr>)"
    using c by (simp add: surfaced_def p)
  then show ?case
    using Cons.IH [of "ctx\<lparr>sent := sent ctx @ [(d, s)]\<rparr>"] Cons.prems by (simp add: p)
qed

lemma mouse_loop_first_escape:
  assumes "\<forall>(d, s)\<in>set earlier. \<not> is_keyboard d \<or> (\<exists>c. code s = Inr c \<and> c \<noteq> 1)"
    and "is_keyboard device" "code esc = Inr 1"
  shows "mouse_loop (surfaced earlier @ Pending device esc fault # rest) ctx =
           (Some (Inr device), ctx\<lparr>pending := rest, sent := sent ctx @ earlier\<rparr>)"
  using assms(1)
proof (induction earlier arbitrary: ctx)
  case Nil
  then show ?case using assms(2,3) by (simp add: surfaced_def)
next
  case (Cons p earlier)
  obtain d s where p: "p = (d, s)" by (cases p)
  have "mouse_loop (surfaced (p # earlier) @ Pending device esc fault # rest) ctx =
        mouse_loop (surfaced earlier @ Pending device esc fault # rest)
          (ctx\<lparr>sent := sent ctx @ [(d, s)]\<rparr>)"
    using Cons.prems by (auto simp add: surfaced_def p)
  then show ?case
    using Cons.IH [of "ctx\<lparr>sent := sent ctx @ [(d, s)]\<rparr>"] Cons.prems by (simp add: p)
qed

lemma keyboard_loop_returns:
  assumes "keyboard_loop stream ctx = (Some (Inr device), ctx')"
  shows "\<exists>earlier esc fault.
           stream = surfaced earlier @ Pending device esc fault # pending ctx' \<and>
           code esc = Inr 1 \<and> sent ctx' = sent ctx @ earlier \<and>
           (\<forall>(d, s)\<in>set earlier. code s \<noteq> Inr 1)"
  using assms
proof (induction stream ctx rule: keyboard_loop.induct)
  case (1 ctx)
  then show ?case by simp
next
  case (2 e rest ctx)
  then show ?case by simp
next
  case (3 dev e rest ctx)
  then show ?case by simp
next
  case (4 dev stroke send_fault rest ctx)
  show ?case
  proof (cases "code stroke")
    case (Inl e)
    with "4.prems" show ?thesis by simp
  next
    case (Inr c)
    show ?thesis
    proof (cases "c = 1")
      case True
      with Inr "4.prems" have r: "ctx' = ctx\<lparr>pending := rest\<rparr>" and "dev = device"
        by simp_all
      with Inr True show ?thesis
        by (intro exI [where x = "[]"] exI [where x = stroke] exI [where x = send_fault])
          (simp add: surfaced_def)
    next
      case False
      with Inr "4.prems" have nf: "send_fault = None"
        by (cases send_fault) simp_all
      with Inr False "4.prems" have
        "keyboard_loop rest (ctx\<lparr>sent := sent ctx @ [(dev, stroke)]\<rparr>) = (Some (Inr device), ctx')"
        by simp
      from "4.IH" [OF Inr False nf this] obtain earlier esc fault where e:
        "rest = surfaced earlier @ Pending device esc fault # pending ctx'"
        "code esc = Inr 1"
        "sent ctx' = sent (ctx\<lparr>sent := sent ctx @ [(dev, stroke)]\<rparr>) @ earlier"
        "\<forall>(d, s)\<in>set earlier. code s \<noteq> Inr 1"
        by (elim exE conjE)
      show ?thesis
        using e nf Inr False
        by (intro exI [where x = "(dev, stroke) # earlier"] exI [where x = esc]
            exI [where x = fault]) (simp add: surfaced_def)
    qed
  qed
qed

lemma mouse_loop_returns:
  assumes "mouse_loop stream ctx = (Some (Inr device), ctx')"
  shows "\<exists>earlier esc fault.
           stream = surfaced earlier @ Pending device esc fault # pending ctx' \<and>
           is_keyboard device \<and> code esc = Inr 1 \<and> sent ctx' = sent ctx @ earlier \<and>
           (\<forall>(d, s)\<in>set earlier. \<not> (is_keyboard d \<and> code s = Inr 1))"
  using assms
proof (induction stream ctx rule: mouse_loop.induct)
  case (1 ctx)
  then show ?case by simp
next
  case (2 e rest ctx)
  then show ?case by simp
next
  case (3 dev e rest ctx)
  then show ?case by simp
next
  case (4 dev stroke send_fault rest ctx)
  let ?r = "if is_keyboard dev then code stroke else Inr 0"
  show ?case
  proof (cases ?r)
    case (Inl e)
    with "4.prems" show ?thesis by simp
  next
    case (Inr c)
    show ?thesis
    proof (cases "is_keyboard dev \<and> c = 1")
      case True
      with Inr "4.prems" have r: "ctx' = ctx\<lparr>pending := rest\<rparr>" and "dev = device"
        by simp_all
      with Inr True show ?thesis
        by (intro exI [where x = "[]"] exI [where x = stroke] exI [where x = send_fault])
          (simp add: surfaced_def)
    next
      case False
      from Inr "4.prems" have nf: "send_fault = None"
        by (cases send_fault) (simp_all add: False)
      from Inr "4.prems" nf have
        "mouse_loop rest (ctx\<lparr>sent := sent ctx @ [(dev, stroke)]\<rparr>) = (Some (Inr device), ctx')"
        by (simp add: False)
      from "4.IH" [OF Inr False nf this] obtain earlier esc fault where e:
        "rest = surfaced earlier @ Pending device esc fault # pending ctx'"
        "is_keyboard device" "code esc = Inr 1"
        "sent ctx' = sent (ctx\<lparr>sent := sent ctx @ [(dev, stroke)]\<rparr>) @ earlier"
        "\<forall>(d, s)\<in>set earlier. \<not> (is_keyboard d \<and> code s = Inr 1)"
        by (elim exE conjE)
      have "\<not> (is_keyboard dev \<and> code stroke = Inr 1)"
        using Inr False by (cases "is_keyboard dev") simp_all
      then show ?thesis
        using e nf
        by (intro exI [where x = "(dev, stroke) # earlier"] exI [where x = esc]
            exI [where x = fault]) (simp add: surfaced_def)
    qed
  qed
qed

lemma finally_destroy_returns:
  assumes "finally_destroy (r, c) = (Some out, Some ctx)"
  shows "r = Some out \<and> ctx = destroy_context c"
  using assms by (cases r) (simp_all add: finally_destroy_def)

lemma keyboard_loop_destroyed:
  "keyboard_loop stream ctx = (r, ctx') \<Longrightarrow> destroyed ctx' = destroyed ctx"
proof (induction stream ctx rule: keyboard_loop.induct)
  case (4 dev stroke send_fault rest ctx)
  then show ?case
    by (cases "code stroke"; cases send_fault) (auto split: if_splits)
qed auto

lemma mouse_loop_destroyed:
  "mouse_loop stream ctx = (r, ctx') \<Longrightarrow> destroyed ctx' = destroyed ctx"
proof (induction stream ctx rule: mouse_loop.induct)
  case (4 dev stroke send_fault rest ctx)
  then show ?case
    by (cases "code stroke"; cases send_fault; cases "is_keyboard dev") (auto split: if_splits)
qed auto

lemma finally_destroy_closes:
  assumes "destroyed c = False"
  shows "\<exists>ctx. snd (finally_destroy (r, c)) = Some ctx \<and>
           (case fst (finally_destroy (r, c)) of
              None \<Rightarrow> \<not> destroyed ctx
            | Some (Inl e) \<Rightarrow> destroyed ctx
            | Some (Inr device) \<Rightarrow> destroyed ctx)"
  using assms by (cases r) (simp_all add: finally_destroy_def destroy_context_def split: sum.splits)

lemma surfaced_append:
  "surfaced (xs @ (d, s) # ys) = surfaced xs @ Pending d s None # surfaced ys"
  by (simp add: surfaced_def)

lemma capture_keyboard_first_escape:
  assumes "INTERCEPTION_INSTALLED w"
    and "\<forall>(d, s)\<in>set earlier. \<exists>c. code s = Inr c \<and> c \<noteq> 1" "code esc = Inr 1"
  shows "capture_keyboard T (surfaced (earlier @ (device, esc) # later)) w =
           (Some (Inr device),
            Some \<lparr>pending = surfaced later, filters = [(is_keyboard, FILTER_KEY_DOWN T)],
                  sent = earlier, destroyed = True\<rparr>)"
  using assms(1) keyboard_loop_first_escape [OF assms(2,3)]
  by (simp add: capture_keyboard_def surfaced_append finally_destroy_def destroy_context_def
      set_filter_def Interception_def)

lemma py_round_floor: "py_round q = \<lfloor>q\<rfloor> \<or> py_round q = \<lfloor>q\<rfloor> + 1"
  by (simp add: py_round_def Let_def)

lemma nearest_floor:
  fixes q :: real and r :: int
  assumes "\<bar>real_of_int r - q\<bar> \<le> 1 / 2"
  shows "\<bar>\<lfloor>q\<rfloor> - r\<bar> \<le> 1"
proof -
  have "real_of_int \<lfloor>q\<rfloor> \<le> q" "q < real_of_int \<lfloor>q\<rfloor> + 1"
    by linarith+
  with assms have "real_of_int r < real_of_int \<lfloor>q\<rfloor> + 2" "real_of_int \<lfloor>q\<rfloor> - 1 < real_of_int r"
    by linarith+
  then have "r < \<lfloor>q\<rfloor> + 2" "\<lfloor>q\<rfloor> - 1 < r"
    by linarith+
  then show ?thesis by linarith
qed

lemma driver_coordinate_floor:
  assumes "0 \<le> x" "0 < W"
  shows "driver_coordinate x W = Inr \<lfloor>65535 * real_of_int x / real_of_int W\<rfloor>"
    and "driver_coordinate x W = Inr ((0xFFFF * x) div W)"
proof -
  have q: "0 \<le> real_of_int (0xFFFF * x) / real_of_int W"
    using assms by simp
  show "driver_coordinate x W = Inr \<lfloor>65535 * real_of_int x / real_of_int W\<rfloor>"
    using assms q by (simp add: driver_coordinate_def)
  have "\<lfloor>real_of_int (0xFFFF * x) / real_of_int W\<rfloor> = (0xFFFF * x) div W"
    by (rule floor_divide_of_int_eq)
  then show "driver_coordinate x W = Inr ((0xFFFF * x) div W)"
    using assms q by (simp add: driver_coordinate_def)
qed

section \<open>Device classification\<close>

text \<open>
  C1. For every integer id, \<open>is_keyboard id\<close> holds exactly when id is in [1,10] and
  \<open>is_mouse id\<close> exactly when id is in [11,20]; no id satisfies both, an id satisfies one of
  them exactly when it is in [1,20], and both are false at 0.
\<close>

theorem device_classification:
  "(is_keyboard i \<longleftrightarrow> i \<in> {1..10}) \<and> (is_mouse i \<longleftrightarrow> i \<in> {11..20}) \<and>
   \<not> (is_keyboard i \<and> is_mouse i) \<and>
   ((is_keyboard i \<or> is_mouse i) \<longleftrightarrow> i \<in> {1..20}) \<and>
   \<not> is_keyboard 0 \<and> \<not> is_mouse 0"
  by (auto simp: is_keyboard_def is_mouse_def)

section \<open>Validation of key and button names\<close>

text \<open>
  C2, as the claim states it, fails for \<open>write\<close>: the term "m!" has the unsupported
  character "!", and the strokes of "m" are sent before UnknownKeyError is raised.
\<close>

theorem write_partial_execution:
  "write sample_tables (lit ''m!'') 0.05 world_installed =
     (Inl (UnknownKeyError (lit ''!'')),
      world_installed\<lparr>trace :=
        [Send 1 (KeyStroke 50 0 0), Sleep 0.025, Send 1 (KeyStroke 50 1 0), Sleep 0.025,
         Sleep 0.05]\<rparr>)"
proof -
  have l: "lower sample_tables (lit ''m!'') = lit ''m'' @ 33 # []"
    by (simp add: lower_def is_ascii_def lower_ascii_def lit_def)
  have k: "\<forall>x\<in>set (lit ''m''). KEYBOARD_MAPPING sample_tables [x] \<noteq> None"
    "KEYBOARD_MAPPING sample_tables [33] = None"
    by (simp_all add: sample_tables_def lit_def)
  have s: "\<forall>x\<in>set (lit ''m'' @ [33]). lower sample_tables [x] = [x]"
    by (simp add: lower_def is_ascii_def lower_ascii_def lit_def)
  have p: "pressed sample_tables 109 =
             [Send 1 (KeyStroke 50 0 0), Sleep 0.025, Send 1 (KeyStroke 50 1 0), Sleep 0.025]"
    by (simp add: pressed_def sample_tables_def lit_def keyboard_def KEY_PRESS_DELAY_def)
  have t: "trace world_installed = []"
    by (simp add: world_installed_def module_init_def)
  from write_stops [OF installed l k s, of "0.05"] show ?thesis
    by (simp add: sleep_ok typed_def p t lit_def)
qed

text \<open>
  C2, amended. With the driver present, \<open>press\<close>, \<open>key_down\<close>, \<open>key_up\<close> and \<open>hold_key\<close>
  raise UnknownKeyError for a name whose lowercase form is not in the table, and \<open>click\<close>,
  \<open>mouse_down\<close>, \<open>mouse_up\<close> and \<open>hold_mouse\<close> raise UnknownButtonError for a name outside
  the supported set, in each case leaving the state as it was: no stroke is sent and no
  delay taken. \<open>write\<close> checks one character at a time. Let the lowercase form of the
  term be \<open>pre\<close>, then \<open>c\<close>, then \<open>post\<close>, where every character of \<open>pre\<close> is a key of the
  table, \<open>c\<close> is not, and \<open>lower()\<close> leaves each of these characters as it is (which it
  does for every term of ASCII characters). For an interval that \<open>time.sleep\<close> accepts
  (not negative, at most \<open>2^63 - 1\<close> nanoseconds), \<open>write\<close> sends the strokes of every
  character of \<open>pre\<close>, each followed by the interval, then raises UnknownKeyError for
  \<open>c\<close>, and sends nothing of \<open>post\<close>. When \<open>pre\<close> is empty it raises UnknownKeyError
  for \<open>c\<close> with nothing sent, whatever the interval. For an interval that \<open>time.sleep\<close>
  rejects and a non-empty \<open>pre\<close>, it sends the strokes of the first character only and
  then raises the exception of \<open>time.sleep\<close> (OverflowError when the length does not fit
  64-bit nanoseconds, ValueError when it is negative).
\<close>

theorem validation_before_strokes:
  assumes "INTERCEPTION_INSTALLED w"
  shows "(KEYBOARD_MAPPING T (lower T key) = None \<longrightarrow>
            press T key presses interval w = (Inl (UnknownKeyError (lower T key)), w) \<and>
            key_down T key delay w = (Inl (UnknownKeyError (lower T key)), w) \<and>
            key_up T key delay w = (Inl (UnknownKeyError (lower T key)), w) \<and>
            hold_key T key body w = (Inl (UnknownKeyError (lower T key)), w)) \<and>
         (button \<notin> SUPPORTED_BUTTONS \<longrightarrow>
            click T pos button clicks interval move_delay w = (Inl (UnknownButtonError button), w) \<and>
            mouse_down T button delay w = (Inl (UnknownButtonError button), w) \<and>
            mouse_up T button delay w = (Inl (UnknownButtonError button), w) \<and>
            hold_mouse T button body w = (Inl (UnknownButtonError button), w)) \<and>
         (lower T trm = pre @ c # post \<and>
          (\<forall>x\<in>set pre. KEYBOARD_MAPPING T [x] \<noteq> None) \<and> KEYBOARD_MAPPING T [c] = None \<and>
          (\<forall>x\<in>set (pre @ [c]). lower T [x] = [x]) \<longrightarrow>
            (0 \<le> interval \<and> interval * 10 ^ 9 \<le> 2 ^ 63 - 1 \<longrightarrow>
               write T trm interval w =
                 (Inl (UnknownKeyError [c]),
                  w\<lparr>trace := trace w @ concat (map (typed T interval) pre)\<rparr>)) \<and>
            (pre = [] \<longrightarrow> write T trm interval w = (Inl (UnknownKeyError [c]), w)) \<and>
            (pre \<noteq> [] \<and> (interval < 0 \<or> 2 ^ 63 - 1 < interval * 10 ^ 9) \<longrightarrow>
               write T trm interval w =
                 (Inl (if interval * 10 ^ 9 < - (2 ^ 63) \<or> 2 ^ 63 - 1 < interval * 10 ^ 9
                       then OverflowError else ValueError),
                  w\<lparr>trace := trace w @ pressed T (hd pre)\<rparr>))) \<and>
         ((\<forall>x\<in>set trm. x < 128) \<longrightarrow> (\<forall>x\<in>set (lower T trm). lower T [x] = [x]))"
proof -
  have names:
    "KEYBOARD_MAPPING T (lower T key) = None \<longrightarrow>
            press T key presses interval w = (Inl (UnknownKeyError (lower T key)), w) \<and>
            key_down T key delay w = (Inl (UnknownKeyError (lower T key)), w) \<and>
            key_up T key delay w = (Inl (UnknownKeyError (lower T key)), w) \<and>
            hold_key T key body w = (Inl (UnknownKeyError (lower T key)), w)"
    "button \<notin> SUPPORTED_BUTTONS \<longrightarrow>
            click T pos button clicks interval move_delay w = (Inl (UnknownButtonError button), w) \<and>
            mouse_down T button delay w = (Inl (UnknownButtonError button), w) \<and>
            mouse_up T button delay w = (Inl (UnknownButtonError button), w) \<and>
            hold_mouse T button body w = (Inl (UnknownButtonError button), w)"
    using assms
    by (simp_all add: press_unknown key_down_unknown key_up_unknown hold_key_unknown
        click_unknown mouse_down_unknown mouse_up_unknown hold_mouse_unknown)
  have text_part:
    "(0 \<le> interval \<and> interval * 10 ^ 9 \<le> 2 ^ 63 - 1 \<longrightarrow>
               write T trm interval w =
                 (Inl (UnknownKeyError [c]),
                  w\<lparr>trace := trace w @ concat (map (typed T interval) pre)\<rparr>)) \<and>
            (pre = [] \<longrightarrow> write T trm interval w = (Inl (UnknownKeyError [c]), w)) \<and>
            (pre \<noteq> [] \<and> (interval < 0 \<or> 2 ^ 63 - 1 < interval * 10 ^ 9) \<longrightarrow>
               write T trm interval w =
                 (Inl (if interval * 10 ^ 9 < - (2 ^ 63) \<or> 2 ^ 63 - 1 < interval * 10 ^ 9
                       then OverflowError else ValueError),
                  w\<lparr>trace := trace w @ pressed T (hd pre)\<rparr>))"
    if h: "lower T trm = pre @ c # post" "\<forall>x\<in>set pre. KEYBOARD_MAPPING T [x] \<noteq> None"
      "KEYBOARD_MAPPING T [c] = None" "\<forall>x\<in>set (pre @ [c]). lower T [x] = [x]"
  proof -
    note ws = write_stops [OF assms h, of interval]
    have a: "write T trm interval w =
                 (Inl (UnknownKeyError [c]),
                  w\<lparr>trace := trace w @ concat (map (typed T interval) pre)\<rparr>)"
      if "0 \<le> interval \<and> interval * 10 ^ 9 \<le> 2 ^ 63 - 1"
    proof -
      from that have "sleep_error interval = None" by (simp add: sleep_error_None)
      with ws show ?thesis by simp
    qed
    have b: "write T trm interval w = (Inl (UnknownKeyError [c]), w)" if "pre = []"
      using ws that by (cases "sleep_error interval") simp_all
    have c: "write T trm interval w =
                 (Inl (if interval * 10 ^ 9 < - (2 ^ 63) \<or> 2 ^ 63 - 1 < interval * 10 ^ 9
                       then OverflowError else ValueError),
                  w\<lparr>trace := trace w @ pressed T (hd pre)\<rparr>)"
      if "pre \<noteq> [] \<and> (interval < 0 \<or> 2 ^ 63 - 1 < interval * 10 ^ 9)"
    proof -
      from that obtain x later where p: "pre = x # later" by (cases pre) auto
      have "sleep_error interval =
              Some (if interval * 10 ^ 9 < - (2 ^ 63) \<or> 2 ^ 63 - 1 < interval * 10 ^ 9
                    then OverflowError else ValueError)"
        using that by (auto simp: sleep_error_eq)
      with ws p show ?thesis by simp
    qed
    from a b c show ?thesis by (intro conjI impI)
  qed
  have stable: "(\<forall>x\<in>set trm. x < 128) \<longrightarrow> (\<forall>x\<in>set (lower T trm). lower T [x] = [x])"
  proof (intro impI ballI)
    fix x assume "\<forall>x\<in>set trm. x < 128" "x \<in> set (lower T trm)"
    then show "lower T [x] = [x]"
      using lower_chars_stable [of trm x T] by (simp add: is_ascii_def list_all_iff)
  qed
  show ?thesis
    apply (intro conjI)
       apply (rule names(1))
      apply (rule names(2))
     apply (intro impI, elim conjE, rule text_part; assumption)
    apply (rule stable)
    done
qed

theorem validation_before_strokes_witness:
  "press sample_tables (lit ''Foo'') 2 0.05 world_installed =
     (Inl (UnknownKeyError (lit ''foo'')), world_installed) \<and>
   hold_key sample_tables (lit ''Foo'') skip world_installed =
     (Inl (UnknownKeyError (lit ''foo'')), world_installed) \<and>
   click sample_tables (Some (10, 20)) (lit ''LEFT'') 2 0.05 0.3 world_installed =
     (Inl (UnknownButtonError (lit ''LEFT'')), world_installed) \<and>
   write sample_tables (lit ''1-X2'') 0.05 world_installed =
     (Inl (UnknownKeyError (lit ''x'')),
      world_installed\<lparr>trace :=
        [Send 1 (KeyStroke 2 0 0), Sleep 0.025, Send 1 (KeyStroke 2 1 0), Sleep 0.025, Sleep 0.05,
         Send 1 (KeyStroke 12 0 0), Sleep 0.025, Send 1 (KeyStroke 12 1 0), Sleep 0.025,
         Sleep 0.05]\<rparr>)"
proof -
  have l: "lower sample_tables (lit ''Foo'') = lit ''foo''"
    "lower sample_tables (lit ''1-X2'') = lit ''1-'' @ 120 # lit ''2''"
    by (simp_all add: lower_def is_ascii_def lower_ascii_def lit_def)
  have k: "KEYBOARD_MAPPING sample_tables (lit ''foo'') = None"
    "KEYBOARD_MAPPING sample_tables [120] = None"
    "\<forall>x\<in>set (lit ''1-''). KEYBOARD_MAPPING sample_tables [x] \<noteq> None"
    by (simp_all add: sample_tables_def lit_def)
  have s: "\<forall>x\<in>set (lit ''1-'' @ [120]). lower sample_tables [x] = [x]"
    by (simp add: lower_def is_ascii_def lower_ascii_def lit_def)
  have b: "lit ''LEFT'' \<notin> SUPPORTED_BUTTONS"
    by (simp add: SUPPORTED_BUTTONS_def lit_def)
  have t: "trace world_installed = []"
    by (simp add: world_installed_def module_init_def)
  have p: "pressed sample_tables 49 =
             [Send 1 (KeyStroke 2 0 0), Sleep 0.025, Send 1 (KeyStroke 2 1 0), Sleep 0.025]"
    "pressed sample_tables 45 =
             [Send 1 (KeyStroke 12 0 0), Sleep 0.025, Send 1 (KeyStroke 12 1 0), Sleep 0.025]"
    by (simp_all add: pressed_def sample_tables_def lit_def keyboard_def KEY_PRESS_DELAY_def)
  have x: "lit ''x'' = [120]" "lit ''1-'' = [49, 45]"
    by (simp_all add: lit_def)
  show ?thesis
    using validation_before_strokes [OF installed, where T = sample_tables and key = "lit ''Foo''"
        and presses = 2 and interval = "0.05" and body = skip and button = "lit ''LEFT''"
        and pos = "Some (10, 20)" and clicks = 2 and move_delay = "0.3" and trm = "lit ''1-X2''"
        and pre = "lit ''1-''" and c = 120 and post = "lit ''2''" and delay = None] l k s b
    by (simp add: t typed_def p x)
qed

section \<open>Repeated clicks\<close>

text \<open>
  C3, as the claim states it, fails: \<open>click(button="left", clicks=3, interval=0.1)\<close> sleeps
  for the interval after each of the three down/up pairs, the last one included, so the
  trace holds three sleeps of 0.1 (not two) and ends with one.
\<close>

theorem click_three_trailing_sleep:
  "trace (snd (click sample_tables None (lit ''left'') 3 0.1 0.3 world_installed)) =
     [Send 11 (MouseStroke 1 1 0 0 0 0), Sleep 0.03, Send 11 (MouseStroke 2 1 0 0 0 0), Sleep 0.03,
      Sleep 0.1,
      Send 11 (MouseStroke 1 1 0 0 0 0), Sleep 0.03, Send 11 (MouseStroke 2 1 0 0 0 0), Sleep 0.03,
      Sleep 0.1,
      Send 11 (MouseStroke 1 1 0 0 0 0), Sleep 0.03, Send 11 (MouseStroke 2 1 0 0 0 0), Sleep 0.03,
      Sleep 0.1] \<and>
   count_list (trace (snd (click sample_tables None (lit ''left'') 3 0.1 0.3 world_installed)))
     (Sleep 0.1) = 3 \<and>
   count_list (trace (snd (click sample_tables None (lit ''left'') 3 0.1 0.3 world_installed)))
     (Sleep 0.1) \<noteq> 2 \<and>
   last (trace (snd (click sample_tables None (lit ''left'') 3 0.1 0.3 world_installed))) = Sleep 0.1"
proof -
  have b: "lit ''left'' \<in> SUPPORTED_BUTTONS"
    by (simp add: SUPPORTED_BUTTONS_def)
  have n: "replicate 3 x = [x, x, x]" for x :: "action list"
    by (simp add: numeral_3_eq_3)
  have e: "sleep_error 0.1 = None"
    by (simp add: sleep_ok)
  have f: "from_string sample_tables (lit ''left'') = (1, 2)" "MOUSE_MOVE_ABSOLUTE sample_tables = 1"
    by (simp_all add: sample_tables_def sample_from_string_def)
  have t: "trace world_installed = []"
    by (simp add: world_installed_def module_init_def)
  show ?thesis
    using click_clicks [OF installed b, of 3 "0.1" sample_tables "0.3"]
    by (simp add: n e f t mouse_def MOUSE_BUTTON_DELAY_def)
qed

text \<open>
  C3, amended. With the driver present, \<open>click(button="left", clicks=3, interval=0.1)\<close>
  returns normally after exactly three rounds of: left-button down stroke, button delay
  0.03, left-button up stroke, button delay 0.03, sleep of the interval 0.1. So three
  down/up pairs are sent to the mouse device, consecutive clicks are at least 0.1 apart,
  and the interval is slept three times: twice between clicks and once after the last.
\<close>

theorem click_three_times:
  assumes "INTERCEPTION_INSTALLED w"
  shows "click T None (lit ''left'') 3 0.1 delay w =
           (Inr (), w\<lparr>trace := trace w @ concat (replicate 3
              [Send mouse (MouseStroke (fst (from_string T (lit ''left''))) (MOUSE_MOVE_ABSOLUTE T) 0 0 0 0),
               Sleep 0.03,
               Send mouse (MouseStroke (snd (from_string T (lit ''left''))) (MOUSE_MOVE_ABSOLUTE T) 0 0 0 0),
               Sleep 0.03,
               Sleep 0.1])\<rparr>)"
proof -
  have b: "lit ''left'' \<in> SUPPORTED_BUTTONS"
    by (simp add: SUPPORTED_BUTTONS_def)
  have e: "sleep_error 0.1 = None"
    by (simp add: sleep_error_None)
  show ?thesis
    using click_clicks [OF assms b, of 3 "0.1" T delay]
    by (simp add: e MOUSE_BUTTON_DELAY_def)
qed

theorem click_three_times_witness:
  "click sample_tables None (lit ''left'') 3 0.1 0.3 world_installed =
     (Inr (), world_installed\<lparr>trace :=
        [Send 11 (MouseStroke 1 1 0 0 0 0), Sleep 0.03, Send 11 (MouseStroke 2 1 0 0 0 0), Sleep 0.03,
         Sleep 0.1,
         Send 11 (MouseStroke 1 1 0 0 0 0), Sleep 0.03, Send 11 (MouseStroke 2 1 0 0 0 0), Sleep 0.03,
         Sleep 0.1,
         Send 11 (MouseStroke 1 1 0 0 0 0), Sleep 0.03, Send 11 (MouseStroke 2 1 0 0 0 0), Sleep 0.03,
         Sleep 0.1]\<rparr>)"
proof -
  have n: "replicate 3 x = [x, x, x]" for x :: "action list"
    by (simp add: numeral_3_eq_3)
  have f: "from_string sample_tables (lit ''left'') = (1, 2)" "MOUSE_MOVE_ABSOLUTE sample_tables = 1"
    by (simp_all add: sample_tables_def sample_from_string_def)
  have t: "trace world_installed = []"
    by (simp add: world_installed_def module_init_def)
  show ?thesis
    using click_three_times [OF installed, of sample_tables "0.3"]
    by (simp add: n f t mouse_def)
qed

section \<open>Settle delays\<close>

text \<open>
  C6, as the claim states it, fails for a negative delay: \<open>key_down("m", delay=-1)\<close> sends
  the stroke, then \<open>time.sleep(-1)\<close> raises ValueError, and no delay follows the stroke.
\<close>

theorem negative_delay_no_settle:
  "key_down sample_tables (lit ''m'') (Some (- 1)) world_installed =
     (Inl ValueError, world_installed\<lparr>trace := [Send 1 (KeyStroke 50 0 0)]\<rparr>)"
proof -
  have k: "KEYBOARD_MAPPING sample_tables (lower sample_tables (lit ''m'')) = Some 50"
    by (simp add: sample_tables_def lower_def is_ascii_def lower_ascii_def lit_def)
  have e: "sleep_error (or_default (Some (- 1)) KEY_PRESS_DELAY) = Some ValueError"
    by (simp add: or_default_def sleep_error_eq)
  have t: "trace world_installed = []" "KEY_DOWN sample_tables = 0"
    by (simp_all add: world_installed_def module_init_def sample_tables_def)
  from key_down_sends [OF installed k, of "Some (- 1)"] show ?thesis
    unfolding e by (simp add: t keyboard_def)
qed

text \<open>
  C6, amended. With the driver present, for a supported key and a supported button, let
  \<open>d\<close> be \<open>delay or DEFAULT\<close>: the default (0.025 for keys, 0.03 for buttons) when the
  delay argument is omitted or zero, and the argument itself otherwise. When \<open>d\<close> is one
  that \<open>time.sleep\<close> accepts (not negative and at most \<open>2^63 - 1\<close> nanoseconds, about
  9.2e9 seconds), \<open>key_down\<close>, \<open>key_up\<close>, \<open>mouse_down\<close> and \<open>mouse_up\<close> send their stroke and
  then sleep for \<open>d\<close>, which is strictly positive. When \<open>d\<close> is negative or longer than
  that, the stroke is sent, \<open>time.sleep\<close> raises (OverflowError when the length does not
  fit 64-bit nanoseconds, ValueError when it is negative), and no delay is taken.
\<close>

theorem settle_delay:
  assumes "INTERCEPTION_INSTALLED w" "KEYBOARD_MAPPING T (lower T key) = Some kcode"
    and "button \<in> SUPPORTED_BUTTONS"
  shows "(let d = or_default delay KEY_PRESS_DELAY in
            (0 \<le> d \<and> d * 10 ^ 9 \<le> 2 ^ 63 - 1 \<longrightarrow>
               0 < d \<and>
               key_down T key delay w =
                 (Inr (), w\<lparr>trace := trace w @
                    [Send keyboard (KeyStroke kcode (KEY_DOWN T) 0), Sleep d]\<rparr>) \<and>
               key_up T key delay w =
                 (Inr (), w\<lparr>trace := trace w @
                    [Send keyboard (KeyStroke kcode (KEY_UP T) 0), Sleep d]\<rparr>)) \<and>
            (d < 0 \<or> 2 ^ 63 - 1 < d * 10 ^ 9 \<longrightarrow>
               key_down T key delay w =
                 (Inl (if d * 10 ^ 9 < - (2 ^ 63) \<or> 2 ^ 63 - 1 < d * 10 ^ 9
                       then OverflowError else ValueError),
                  w\<lparr>trace := trace w @ [Send keyboard (KeyStroke kcode (KEY_DOWN T) 0)]\<rparr>) \<and>
               key_up T key delay w =
                 (Inl (if d * 10 ^ 9 < - (2 ^ 63) \<or> 2 ^ 63 - 1 < d * 10 ^ 9
                       then OverflowError else ValueError),
                  w\<lparr>trace := trace w @ [Send keyboard (KeyStroke kcode (KEY_UP T) 0)]\<rparr>))) \<and>
         (let d = or_default delay MOUSE_BUTTON_DELAY in
            (0 \<le> d \<and> d * 10 ^ 9 \<le> 2 ^ 63 - 1 \<longrightarrow>
               0 < d \<and>
               mouse_down T button delay w =
                 (Inr (), w\<lparr>trace := trace w @
                    [Send mouse (MouseStroke (fst (from_string T button)) (MOUSE_MOVE_ABSOLUTE T) 0 0 0 0),
                     Sleep d]\<rparr>) \<and>
               mouse_up T button delay w =
                 (Inr (), w\<lparr>trace := trace w @
                    [Send mouse (MouseStroke (snd (from_string T button)) (MOUSE_MOVE_ABSOLUTE T) 0 0 0 0),
                     Sleep d]\<rparr>)) \<and>
            (d < 0 \<or> 2 ^ 63 - 1 < d * 10 ^ 9 \<longrightarrow>
               mouse_down T button delay w =
                 (Inl (if d * 10 ^ 9 < - (2 ^ 63) \<or> 2 ^ 63 - 1 < d * 10 ^ 9
                       then OverflowError else ValueError),
                  w\<lparr>trace := trace w @
                    [Send mouse (MouseStroke (fst (from_string T button)) (MOUSE_MOVE_ABSOLUTE T) 0 0 0 0)]\<rparr>) \<and>
               mouse_up T button delay w =
                 (Inl (if d * 10 ^ 9 < - (2 ^ 63) \<or> 2 ^ 63 - 1 < d * 10 ^ 9
                       then OverflowError else ValueError),
                  w\<lparr>trace := trace w @
                    [Send mouse (MouseStroke (snd (from_string T button)) (MOUSE_MOVE_ABSOLUTE T) 0 0 0 0)]\<rparr>))) \<and>
         or_default None KEY_PRESS_DELAY = 0.025 \<and> or_default (Some 0) KEY_PRESS_DELAY = 0.025 \<and>
         or_default None MOUSE_BUTTON_DELAY = 0.03 \<and> or_default (Some 0) MOUSE_BUTTON_DELAY = 0.03 \<and>
         (\<forall>d dflt. d \<noteq> 0 \<longrightarrow> or_default (Some d) dflt = d)"
proof -
  have nz: "or_default delay KEY_PRESS_DELAY \<noteq> 0" "or_default delay MOUSE_BUTTON_DELAY \<noteq> 0"
    by (simp_all add: or_default_nonzero KEY_PRESS_DELAY_def MOUSE_BUTTON_DELAY_def)
  have keys: "(0 \<le> d \<and> d * 10 ^ 9 \<le> 2 ^ 63 - 1 \<longrightarrow>
               0 < d \<and>
               key_down T key delay w =
                 (Inr (), w\<lparr>trace := trace w @
                    [Send keyboard (KeyStroke kcode (KEY_DOWN T) 0), Sleep d]\<rparr>) \<and>
               key_up T key delay w =
                 (Inr (), w\<lparr>trace := trace w @
                    [Send keyboard (KeyStroke kcode (KEY_UP T) 0), Sleep d]\<rparr>)) \<and>
            (d < 0 \<or> 2 ^ 63 - 1 < d * 10 ^ 9 \<longrightarrow>
               key_down T key delay w =
                 (Inl (if d * 10 ^ 9 < - (2 ^ 63) \<or> 2 ^ 63 - 1 < d * 10 ^ 9
                       then OverflowError else ValueError),
                  w\<lparr>trace := trace w @ [Send keyboard (KeyStroke kcode (KEY_DOWN T) 0)]\<rparr>) \<and>
               key_up T key delay w =
                 (Inl (if d * 10 ^ 9 < - (2 ^ 63) \<or> 2 ^ 63 - 1 < d * 10 ^ 9
                       then OverflowError else ValueError),
                  w\<lparr>trace := trace w @ [Send keyboard (KeyStroke kcode (KEY_UP T) 0)]\<rparr>))"
    if d: "d = or_default delay KEY_PRESS_DELAY" for d
  proof (intro conjI impI)
    assume ok: "0 \<le> d \<and> d * 10 ^ 9 \<le> 2 ^ 63 - 1"
    then have e: "sleep_error (or_default delay KEY_PRESS_DELAY) = None"
      unfolding d by (simp add: sleep_error_None)
    show "0 < d" using ok nz(1) d by simp
    show "key_down T key delay w =
                 (Inr (), w\<lparr>trace := trace w @
                    [Send keyboard (KeyStroke kcode (KEY_DOWN T) 0), Sleep d]\<rparr>)"
      using key_down_sends [OF assms(1,2), of delay] unfolding e d by simp
    show "key_up T key delay w =
                 (Inr (), w\<lparr>trace := trace w @
                    [Send keyboard (KeyStroke kcode (KEY_UP T) 0), Sleep d]\<rparr>)"
      using key_up_sends [OF assms(1,2), of delay] unfolding e d by simp
  next
    assume bad: "d < 0 \<or> 2 ^ 63 - 1 < d * 10 ^ 9"
    note e = sleep_error_fails [OF bad, unfolded d]
    show "key_down T key delay w =
                 (Inl (if d * 10 ^ 9 < - (2 ^ 63) \<or> 2 ^ 63 - 1 < d * 10 ^ 9
                       then OverflowError else ValueError),
                  w\<lparr>trace := trace w @ [Send keyboard (KeyStroke kcode (KEY_DOWN T) 0)]\<rparr>)"
      using key_down_sends [OF assms(1,2), of delay] unfolding e d by simp
    show "key_up T key delay w =
                 (Inl (if d * 10 ^ 9 < - (2 ^ 63) \<or> 2 ^ 63 - 1 < d * 10 ^ 9
                       then OverflowError else ValueError),
                  w\<lparr>trace := trace w @ [Send keyboard (KeyStroke kcode (KEY_UP T) 0)]\<rparr>)"
      using key_up_sends [OF assms(1,2), of delay] unfolding e d by simp
  qed
  have buttons: "(0 \<le> d \<and> d * 10 ^ 9 \<le> 2 ^ 63 - 1 \<longrightarrow>
               0 < d \<and>
               mouse_down T button delay w =
                 (Inr (), w\<lparr>trace := trace w @
                    [Send mouse (MouseStroke (fst (from_string T button)) (MOUSE_MOVE_ABSOLUTE T) 0 0 0 0),
                     Sleep d]\<rparr>) \<and>
               mouse_up T button delay w =
                 (Inr (), w\<lparr>trace := trace w @
                    [Send mouse (MouseStroke (snd (from_string T button)) (MOUSE_MOVE_ABSOLUTE T) 0 0 0 0),
                     Sleep d]\<rparr>)) \<and>
            (d < 0 \<or> 2 ^ 63 - 1 < d * 10 ^ 9 \<longrightarrow>
               mouse_down T button delay w =
                 (Inl (if d * 10 ^ 9 < - (2 ^ 63) \<or> 2 ^ 63 - 1 < d * 10 ^ 9
                       then OverflowError else ValueError),
                  w\<lparr>trace := trace w @
                    [Send mouse (MouseStroke (fst (from_string T button)) (MOUSE_MOVE_ABSOLUTE T) 0 0 0 0)]\<rparr>) \<and>
               mouse_up T button delay w =
                 (Inl (if d * 10 ^ 9 < - (2 ^ 63) \<or> 2 ^ 63 - 1 < d * 10 ^ 9
                       then OverflowError else ValueError),
                  w\<lparr>trace := trace w @
                    [Send mouse (MouseStroke (snd (from_string T button)) (MOUSE_MOVE_ABSOLUTE T) 0 0 0 0)]\<rparr>))"
    if d: "d = or_default delay MOUSE_BUTTON_DELAY" for d
  proof (intro conjI impI)
    assume ok: "0 \<le> d \<and> d * 10 ^ 9 \<le> 2 ^ 63 - 1"
    then have e: "sleep_error (or_default delay MOUSE_BUTTON_DELAY) = None"
      unfolding d by (simp add: sleep_error_None)
    show "0 < d" using ok nz(2) d by simp
    show "mouse_down T button delay w =
                 (Inr (), w\<lparr>trace := trace w @
                    [Send mouse (MouseStroke (fst (from_string T button)) (MOUSE_MOVE_ABSOLUTE T) 0 0 0 0),
                     Sleep d]\<rparr>)"
      using mouse_down_sends [OF assms(1,3), of T delay] unfolding e d by simp
    show "mouse_up T button delay w =
                 (Inr (), w\<lparr>trace := trace w @
                    [Send mouse (MouseStroke (snd (from_string T button)) (MOUSE_MOVE_ABSOLUTE T) 0 0 0 0),
                     Sleep d]\<rparr>)"
      using mouse_up_sends [OF assms(1,3), of T delay] unfolding e d by simp
  next
    assume bad: "d < 0 \<or> 2 ^ 63 - 1 < d * 10 ^ 9"
    note e = sleep_error_fails [OF bad, unfolded d]
    show "mouse_down T button delay w =
                 (Inl (if d * 10 ^ 9 < - (2 ^ 63) \<or> 2 ^ 63 - 1 < d * 10 ^ 9
                       then OverflowError else ValueError),
                  w\<lparr>trace := trace w @
                    [Send mouse (MouseStroke (fst (from_string T button)) (MOUSE_MOVE_ABSOLUTE T) 0 0 0 0)]\<rparr>)"
      using mouse_down_sends [OF assms(1,3), of T delay] unfolding e d by simp
    show "mouse_up T button delay w =
                 (Inl (if d * 10 ^ 9 < - (2 ^ 63) \<or> 2 ^ 63 - 1 < d * 10 ^ 9
                       then OverflowError else ValueError),
                  w\<lparr>trace := trace w @
                    [Send mouse (MouseStroke (snd (from_string T button)) (MOUSE_MOVE_ABSOLUTE T) 0 0 0 0)]\<rparr>)"
      using mouse_up_sends [OF assms(1,3), of T delay] unfolding e d by simp
  qed
  have dflt: "or_default None KEY_PRESS_DELAY = 0.025 \<and> or_default (Some 0) KEY_PRESS_DELAY = 0.025 \<and>
         or_default None MOUSE_BUTTON_DELAY = 0.03 \<and> or_default (Some 0) MOUSE_BUTTON_DELAY = 0.03 \<and>
         (\<forall>d dflt. d \<noteq> 0 \<longrightarrow> or_default (Some d) dflt = d)"
    by (simp add: or_default_def KEY_PRESS_DELAY_def MOUSE_BUTTON_DELAY_def)
  show ?thesis
    unfolding Let_def
    apply (rule conjI)
     apply (rule keys [OF refl])
    apply (rule conjI)
     apply (rule buttons [OF refl])
    apply (rule dflt)
    done
qed

theorem settle_delay_witness:
  "key_down sample_tables (lit ''M'') None world_installed =
     (Inr (), world_installed\<lparr>trace := [Send 1 (KeyStroke 50 0 0), Sleep 0.025]\<rparr>) \<and>
   mouse_up sample_tables (lit ''right'') None world_installed =
     (Inr (), world_installed\<lparr>trace := [Send 11 (MouseStroke 8 1 0 0 0 0), Sleep 0.03]\<rparr>)"
proof -
  have k: "KEYBOARD_MAPPING sample_tables (lower sample_tables (lit ''M'')) = Some 50"
    by (simp add: sample_tables_def lower_def is_ascii_def lower_ascii_def lit_def)
  have b: "lit ''right'' \<in> SUPPORTED_BUTTONS"
    by (simp add: SUPPORTED_BUTTONS_def)
  have t: "trace world_installed = []" "KEY_DOWN sample_tables = 0"
    "from_string sample_tables (lit ''right'') = (4, 8)" "MOUSE_MOVE_ABSOLUTE sample_tables = 1"
    by (simp_all add: world_installed_def module_init_def sample_tables_def sample_from_string_def
        lit_def)
  show ?thesis
    using settle_delay [OF installed k b, of None]
    by (simp add: Let_def t or_default_def keyboard_def mouse_def KEY_PRESS_DELAY_def
        MOUSE_BUTTON_DELAY_def)
qed

section \<open>Without the driver\<close>

text \<open>
  C7. When the driver fails to initialise (\<open>Interception()\<close> raises any exception \<open>e\<close> while
  the module is loaded), loading gives a module state and raises nothing; in that state
  every decorated operation (\<open>move_to\<close>, \<open>move_relative\<close>, \<open>click\<close> and its two wrappers,
  \<open>press\<close>, \<open>write\<close>, \<open>scroll\<close>, \<open>key_down\<close>, \<open>key_up\<close>, \<open>mouse_down\<close>, \<open>mouse_up\<close>, the two hold
  operations and the four capture and listen loops) raises DriverNotFoundError for all
  arguments, without sending, sleeping or creating a context, while \<open>mouse_position\<close> still
  returns the cursor position.
\<close>

theorem driver_missing:
  assumes "w = module_init (Inl e) pos"
  shows "\<not> INTERCEPTION_INSTALLED w \<and>
         move_to T x y w = (Inl DriverNotFoundError, w) \<and>
         move_relative T x y w = (Inl DriverNotFoundError, w) \<and>
         click T p button clicks interval delay w = (Inl DriverNotFoundError, w) \<and>
         left_click T clicks interval w = (Inl DriverNotFoundError, w) \<and>
         right_click T clicks interval w = (Inl DriverNotFoundError, w) \<and>
         press T key presses interval w = (Inl DriverNotFoundError, w) \<and>
         write T trm interval w = (Inl DriverNotFoundError, w) \<and>
         scroll T direction w = (Inl DriverNotFoundError, w) \<and>
         key_down T key settle w = (Inl DriverNotFoundError, w) \<and>
         key_up T key settle w = (Inl DriverNotFoundError, w) \<and>
         mouse_down T button settle w = (Inl DriverNotFoundError, w) \<and>
         mouse_up T button settle w = (Inl DriverNotFoundError, w) \<and>
         hold_mouse T button body w = (Inl DriverNotFoundError, w) \<and>
         hold_key T key body w = (Inl DriverNotFoundError, w) \<and>
         capture_keyboard T stream w = (Some (Inl DriverNotFoundError), None) \<and>
         capture_mouse T stream w = (Some (Inl DriverNotFoundError), None) \<and>
         listen_to_keyboard T stream w = (Some (Inl DriverNotFoundError), None) \<and>
         listen_to_mouse T stream w = (Some (Inl DriverNotFoundError), None) \<and>
         mouse_position w = (Inr pos, w)"
proof -
  have off: "\<not> INTERCEPTION_INSTALLED w" and cur: "cursor w = pos"
    using assms by (simp_all add: module_init_def)
  have wrapped: "requires_driver f w = (Inl DriverNotFoundError, w)" for f :: "world \<Rightarrow> (exn + unit) \<times> world"
    using off by (simp add: requires_driver_def)
  show ?thesis
    unfolding move_to_def move_relative_def click_def left_click_def right_click_def press_def
      write_def scroll_def key_down_def key_up_def mouse_down_def mouse_up_def hold_mouse_def
      hold_key_def capture_keyboard_def capture_mouse_def listen_to_keyboard_def
      listen_to_mouse_def mouse_position_def
    using off cur by (simp add: wrapped)
qed

theorem driver_missing_witness:
  "\<not> INTERCEPTION_INSTALLED world_missing \<and>
   press sample_tables (lit ''m'') 1 0.1 world_missing = (Inl DriverNotFoundError, world_missing) \<and>
   capture_keyboard sample_tables [Pending 1 (KeyStroke 1 0 0) None] world_missing =
     (Some (Inl DriverNotFoundError), None) \<and>
   mouse_position world_missing = (Inr (0, 0), world_missing)"
  using driver_missing [of world_missing DriverNotFoundError "(0, 0)" sample_tables _ _ _ _ _ 
      "0.1" _ "lit ''m''" 1 _ _ _ _ "[Pending 1 (KeyStroke 1 0 0) None]"]
  by (simp add: world_missing_def)

section \<open>Case of key and button names\<close>




section \<open>Termination of the capture loop\<close>

text \<open>
  C4. With the driver present, for every simulated input stream of key strokes that the
  driver delivers without fault and whose last stroke is an Escape KEY_DOWN (scancode 1),
  \<open>capture_keyboard\<close> terminates: it returns the device of the first stroke with scancode
  1, has re-sent exactly the strokes before it, leaves every stroke after it pending
  (none of them is received or sent), and has closed its context. When the final Escape
  is the only stroke with scancode 1, the device returned is the one that produced it
  and all the strokes before it have been re-sent.
\<close>

theorem capture_keyboard_escape:
  assumes "INTERCEPTION_INSTALLED w"
    and "strokes \<noteq> []"
    and "\<forall>(d, s)\<in>set strokes. \<exists>c st i. s = KeyStroke c st i"
    and "snd (last strokes) = KeyStroke 1 (KEY_DOWN T) info"
  shows "(\<exists>earlier device esc later.
            strokes = earlier @ (device, esc) # later \<and>
            code esc = Inr 1 \<and> (\<forall>(d, s)\<in>set earlier. code s \<noteq> Inr 1) \<and>
            capture_keyboard T (surfaced strokes) w =
              (Some (Inr device),
               Some \<lparr>pending = surfaced later, filters = [(is_keyboard, FILTER_KEY_DOWN T)],
                     sent = earlier, destroyed = True\<rparr>)) \<and>
         ((\<forall>(d, s)\<in>set (butlast strokes). code s \<noteq> Inr 1) \<longrightarrow>
            capture_keyboard T (surfaced strokes) w =
              (Some (Inr (fst (last strokes))),
               Some \<lparr>pending = [], filters = [(is_keyboard, FILTER_KEY_DOWN T)],
                     sent = butlast strokes, destroyed = True\<rparr>))"
proof
  have keys: "\<exists>c. code s = Inr c" if "(d, s) \<in> set strokes" for d s
    using assms(3) that by fastforce
  have "last strokes \<in> set strokes"
    using assms(2) by simp
  moreover have "code (snd (last strokes)) = Inr 1"
    using assms(4) by simp
  ultimately have "\<exists>p\<in>set strokes. code (snd p) = Inr 1"
    by (rule bexI [rotated])
  from split_list_first_prop [OF this] obtain earlier p later where sp:
    "strokes = earlier @ p # later" "code (snd p) = Inr 1"
    "\<forall>q\<in>set earlier. code (snd q) \<noteq> Inr 1"
    by (elim exE conjE)
  have early: "\<forall>(d, s)\<in>set earlier. \<exists>c. code s = Inr c \<and> c \<noteq> 1"
  proof (clarify)
    fix d s assume m: "(d, s) \<in> set earlier"
    then have "(d, s) \<in> set strokes" using sp(1) by simp
    from keys [OF this] obtain c where "code s = Inr c" ..
    moreover have "code s \<noteq> Inr 1" using sp(3) m by force
    ultimately show "\<exists>c. code s = Inr c \<and> c \<noteq> 1" by simp
  qed
  have free: "\<forall>(d, s)\<in>set earlier. code s \<noteq> Inr 1"
    using sp(3) by force
  show "\<exists>earlier device esc later.
            strokes = earlier @ (device, esc) # later \<and>
            code esc = Inr 1 \<and> (\<forall>(d, s)\<in>set earlier. code s \<noteq> Inr 1) \<and>
            capture_keyboard T (surfaced strokes) w =
              (Some (Inr device),
               Some \<lparr>pending = surfaced later, filters = [(is_keyboard, FILTER_KEY_DOWN T)],
                     sent = earlier, destroyed = True\<rparr>)"
    using sp(1,2) free
      capture_keyboard_first_escape [OF assms(1) early sp(2), of T "fst p" later]
    by (intro exI [where x = earlier] exI [where x = "fst p"] exI [where x = "snd p"]
        exI [where x = later]) simp
next
  show "(\<forall>(d, s)\<in>set (butlast strokes). code s \<noteq> Inr 1) \<longrightarrow>
            capture_keyboard T (surfaced strokes) w =
              (Some (Inr (fst (last strokes))),
               Some \<lparr>pending = [], filters = [(is_keyboard, FILTER_KEY_DOWN T)],
                     sent = butlast strokes, destroyed = True\<rparr>)"
  proof
    assume only: "\<forall>(d, s)\<in>set (butlast strokes). code s \<noteq> Inr 1"
    have early: "\<forall>(d, s)\<in>set (butlast strokes). \<exists>c. code s = Inr c \<and> c \<noteq> 1"
    proof (clarify)
      fix d s assume m: "(d, s) \<in> set (butlast strokes)"
      then have "(d, s) \<in> set strokes" by (rule in_set_butlastD)
      with assms(3) obtain c st i where "s = KeyStroke c st i" by fastforce
      moreover have "code s \<noteq> Inr 1" using only m by force
      ultimately show "\<exists>c. code s = Inr c \<and> c \<noteq> 1" by simp
    qed
    have esc: "code (snd (last strokes)) = Inr 1"
      using assms(4) by simp
    have "strokes = butlast strokes @ (fst (last strokes), snd (last strokes)) # []"
      using assms(2) by simp
    then have "capture_keyboard T (surfaced strokes) w =
        capture_keyboard T (surfaced (butlast strokes @ (fst (last strokes), snd (last strokes)) # [])) w"
      by simp
    also have "\<dots> = (Some (Inr (fst (last strokes))),
               Some \<lparr>pending = [], filters = [(is_keyboard, FILTER_KEY_DOWN T)],
                     sent = butlast strokes, destroyed = True\<rparr>)"
      using capture_keyboard_first_escape [OF assms(1) early esc, of T "fst (last strokes)" "[]"]
      by (simp add: surfaced_def)
    finally show "capture_keyboard T (surfaced strokes) w =
              (Some (Inr (fst (last strokes))),
               Some \<lparr>pending = [], filters = [(is_keyboard, FILTER_KEY_DOWN T)],
                     sent = butlast strokes, destroyed = True\<rparr>)" .
  qed
qed

theorem capture_keyboard_escape_witness:
  "capture_keyboard sample_tables (surfaced [(1, KeyStroke 50 0 0), (3, KeyStroke 1 0 0)])
     world_installed =
     (Some (Inr 3),
      Some \<lparr>pending = [], filters = [(is_keyboard, 1)], sent = [(1, KeyStroke 50 0 0)],
            destroyed = True\<rparr>)"
proof -
  have c: "KEY_DOWN sample_tables = 0" "FILTER_KEY_DOWN sample_tables = 1"
    by (simp_all add: sample_tables_def)
  show ?thesis
    using capture_keyboard_escape [OF installed, of "[(1, KeyStroke 50 0 0), (3, KeyStroke 1 0 0)]"
        sample_tables 0, THEN conjunct2]
    by (simp add: c)
qed

section \<open>Release of the context\<close>

text \<open>
  C5. With the driver present, each of \<open>capture_keyboard\<close>, \<open>capture_mouse\<close>,
  \<open>listen_to_keyboard\<close> and \<open>listen_to_mouse\<close>, run on any stream of events (strokes and
  exceptions of \<open>wait\<close>, \<open>receive\<close> and \<open>send\<close>), creates a context, and whenever the loop is
  left, by returning a device after Escape or by an exception that propagates out of its
  body, the context has been destroyed; it is still open only while \<open>wait\<close> blocks.
\<close>

theorem context_closed_on_exit:
  assumes "INTERCEPTION_INSTALLED w"
    and "loop \<in> {capture_keyboard, capture_mouse, listen_to_keyboard, listen_to_mouse}"
  shows "\<exists>ctx. snd (loop T stream w) = Some ctx \<and>
           (case fst (loop T stream w) of
              None \<Rightarrow> \<not> destroyed ctx
            | Some (Inl e) \<Rightarrow> destroyed ctx
            | Some (Inr device) \<Rightarrow> destroyed ctx)"
proof -
  have kb: "\<exists>ctx. snd (finally_destroy (keyboard_loop stream c0)) = Some ctx \<and>
           (case fst (finally_destroy (keyboard_loop stream c0)) of
              None \<Rightarrow> \<not> destroyed ctx
            | Some (Inl e) \<Rightarrow> destroyed ctx
            | Some (Inr device) \<Rightarrow> destroyed ctx)"
    if "destroyed c0 = False" for c0
  proof -
    obtain r c where rc: "keyboard_loop stream c0 = (r, c)"
      by (cases "keyboard_loop stream c0")
    from keyboard_loop_destroyed [OF rc] that have "destroyed c = False" by simp
    from finally_destroy_closes [OF this] show ?thesis unfolding rc .
  qed
  have ms: "\<exists>ctx. snd (finally_destroy (mouse_loop stream c0)) = Some ctx \<and>
           (case fst (finally_destroy (mouse_loop stream c0)) of
              None \<Rightarrow> \<not> destroyed ctx
            | Some (Inl e) \<Rightarrow> destroyed ctx
            | Some (Inr device) \<Rightarrow> destroyed ctx)"
    if "destroyed c0 = False" for c0
  proof -
    obtain r c where rc: "mouse_loop stream c0 = (r, c)"
      by (cases "mouse_loop stream c0")
    from mouse_loop_destroyed [OF rc] that have "destroyed c = False" by simp
    from finally_destroy_closes [OF this] show ?thesis unfolding rc .
  qed
  have fresh: "destroyed (set_filter p m (Interception stream)) = False"
    "destroyed (set_filter p m (set_filter p' m' (Interception stream))) = False" for p m p' m'
    by (simp_all add: set_filter_def Interception_def)
  from assms(2) consider "loop = capture_keyboard" | "loop = capture_mouse"
    | "loop = listen_to_keyboard" | "loop = listen_to_mouse"
    by auto
  then show ?thesis
  proof cases
    case 1
    then show ?thesis using assms(1) kb [OF fresh(1)] by (simp add: capture_keyboard_def)
  next
    case 2
    then show ?thesis using assms(1) ms [OF fresh(2)] by (simp add: capture_mouse_def)
  next
    case 3
    then show ?thesis using assms(1) kb [OF fresh(1)] by (simp add: listen_to_keyboard_def)
  next
    case 4
    then show ?thesis using assms(1) ms [OF fresh(2)] by (simp add: listen_to_mouse_def)
  qed
qed

theorem context_closed_on_exit_witness:
  "fst (listen_to_mouse sample_tables
          [Pending 11 (MouseStroke 1 0 0 5 5 0) None, Pending 1 (KeyStroke 50 0 0) (Some (DriverFault 3))]
          world_installed) = Some (Inl (DriverFault 3)) \<and>
   (\<exists>ctx. snd (listen_to_mouse sample_tables
                 [Pending 11 (MouseStroke 1 0 0 5 5 0) None,
                  Pending 1 (KeyStroke 50 0 0) (Some (DriverFault 3))]
                 world_installed) = Some ctx \<and>
          destroyed ctx)"
proof -
  let ?S = "[Pending 11 (MouseStroke 1 0 0 5 5 0) None, Pending 1 (KeyStroke 50 0 0) (Some (DriverFault 3))]"
  have f: "fst (listen_to_mouse sample_tables ?S world_installed) = Some (Inl (DriverFault 3))"
    using installed
    by (simp add: listen_to_mouse_def finally_destroy_def is_keyboard_def)
  have m: "listen_to_mouse \<in> {capture_keyboard, capture_mouse, listen_to_keyboard, listen_to_mouse}"
    by simp
  show ?thesis
    using context_closed_on_exit [OF installed m, of sample_tables ?S] f
    by simp
qed

section \<open>The terminating stroke is not forwarded\<close>

text \<open>
  C9. With the driver present, for each of the four loops and every stream that consists
  of strokes surfaced without fault that do not end the loop, then a stroke that ends it
  (scancode 1; in the mouse loops from a keyboard device, the earlier strokes being
  mouse strokes or key strokes with another scancode), then any further events: the loop
  returns the device of the terminating stroke, has re-sent exactly the earlier strokes,
  in order, has not sent the terminating stroke, has left the further events pending,
  and has closed its context. Conversely, whenever one of the loops returns a device,
  the stream has that form: the strokes sent are exactly those before the terminating
  one, and none of them satisfies the terminating condition.
\<close>

theorem escape_consumed:
  assumes "INTERCEPTION_INSTALLED w"
  shows "(code esc = Inr 1 \<and> (\<forall>(d, s)\<in>set earlier. \<exists>c. code s = Inr c \<and> c \<noteq> 1) \<longrightarrow>
            capture_keyboard T (surfaced earlier @ Pending device esc fault # rest) w =
              (Some (Inr device),
               Some \<lparr>pending = rest, filters = [(is_keyboard, FILTER_KEY_DOWN T)],
                     sent = earlier, destroyed = True\<rparr>) \<and>
            listen_to_keyboard T (surfaced earlier @ Pending device esc fault # rest) w =
              (Some (Inr device),
               Some \<lparr>pending = rest, filters = [(is_keyboard, FILTER_KEY_ALL T)],
                     sent = earlier, destroyed = True\<rparr>)) \<and>
         (is_keyboard device \<and> code esc = Inr 1 \<and>
          (\<forall>(d, s)\<in>set earlier. \<not> is_keyboard d \<or> (\<exists>c. code s = Inr c \<and> c \<noteq> 1)) \<longrightarrow>
            capture_mouse T (surfaced earlier @ Pending device esc fault # rest) w =
              (Some (Inr device),
               Some \<lparr>pending = rest,
                     filters = [(is_mouse, FILTER_MOUSE_LEFT_BUTTON_DOWN T),
                                (is_keyboard, FILTER_KEY_DOWN T)],
                     sent = earlier, destroyed = True\<rparr>) \<and>
            listen_to_mouse T (surfaced earlier @ Pending device esc fault # rest) w =
              (Some (Inr device),
               Some \<lparr>pending = rest,
                     filters = [(is_mouse, FILTER_MOUSE_ALL T), (is_keyboard, FILTER_KEY_DOWN T)],
                     sent = earlier, destroyed = True\<rparr>)) \<and>
         (capture_keyboard T stream w = (Some (Inr device), Some ctx) \<or>
          listen_to_keyboard T stream w = (Some (Inr device), Some ctx) \<longrightarrow>
            (\<exists>earlier esc fault.
               stream = surfaced earlier @ Pending device esc fault # pending ctx \<and>
               code esc = Inr 1 \<and> sent ctx = earlier \<and>
               (\<forall>(d, s)\<in>set (sent ctx). code s \<noteq> Inr 1))) \<and>
         (capture_mouse T stream w = (Some (Inr device), Some ctx) \<or>
          listen_to_mouse T stream w = (Some (Inr device), Some ctx) \<longrightarrow>
            (\<exists>earlier esc fault.
               stream = surfaced earlier @ Pending device esc fault # pending ctx \<and>
               is_keyboard device \<and> code esc = Inr 1 \<and> sent ctx = earlier \<and>
               (\<forall>(d, s)\<in>set (sent ctx). \<not> (is_keyboard d \<and> code s = Inr 1))))"
proof -
  have kb: "\<exists>earlier esc fault.
               stream = surfaced earlier @ Pending device esc fault # pending ctx \<and>
               code esc = Inr 1 \<and> sent ctx = earlier \<and>
               (\<forall>(d, s)\<in>set (sent ctx). code s \<noteq> Inr 1)"
    if "finally_destroy (keyboard_loop stream (set_filter p m (Interception stream))) =
          (Some (Inr device), Some ctx)" for p m
  proof -
    obtain r c where rc: "keyboard_loop stream (set_filter p m (Interception stream)) = (r, c)"
      by (cases "keyboard_loop stream (set_filter p m (Interception stream))")
    from finally_destroy_returns [OF that [unfolded rc]]
    have r: "r = Some (Inr device)" and ctx: "ctx = destroy_context c"
      by simp_all
    from keyboard_loop_returns [OF rc [unfolded r]] obtain earlier esc fault where
      "stream = surfaced earlier @ Pending device esc fault # pending c"
      "code esc = Inr 1" "sent c = sent (set_filter p m (Interception stream)) @ earlier"
      "\<forall>(d, s)\<in>set earlier. code s \<noteq> Inr 1"
      by (elim exE conjE)
    then show ?thesis
      by (intro exI [where x = earlier] exI [where x = esc] exI [where x = fault])
        (simp add: ctx destroy_context_def set_filter_def Interception_def)
  qed
  have ms: "\<exists>earlier esc fault.
               stream = surfaced earlier @ Pending device esc fault # pending ctx \<and>
               is_keyboard device \<and> code esc = Inr 1 \<and> sent ctx = earlier \<and>
               (\<forall>(d, s)\<in>set (sent ctx). \<not> (is_keyboard d \<and> code s = Inr 1))"
    if "finally_destroy (mouse_loop stream (set_filter p m (set_filter p' m' (Interception stream)))) =
          (Some (Inr device), Some ctx)" for p m p' m'
  proof -
    let ?c0 = "set_filter p m (set_filter p' m' (Interception stream))"
    obtain r c where rc: "mouse_loop stream ?c0 = (r, c)"
      by (cases "mouse_loop stream ?c0")
    from finally_destroy_returns [OF that [unfolded rc]]
    have r: "r = Some (Inr device)" and ctx: "ctx = destroy_context c"
      by simp_all
    from mouse_loop_returns [OF rc [unfolded r]] obtain earlier esc fault where
      "stream = surfaced earlier @ Pending device esc fault # pending c"
      "is_keyboard device" "code esc = Inr 1" "sent c = sent ?c0 @ earlier"
      "\<forall>(d, s)\<in>set earlier. \<not> (is_keyboard d \<and> code s = Inr 1)"
      by (elim exE conjE)
    then show ?thesis
      by (intro exI [where x = earlier] exI [where x = esc] exI [where x = fault])
        (simp add: ctx destroy_context_def set_filter_def Interception_def)
  qed
  have loops:
    "capture_keyboard T stream w =
       finally_destroy (keyboard_loop stream
         (set_filter is_keyboard (FILTER_KEY_DOWN T) (Interception stream)))"
    "listen_to_keyboard T stream w =
       finally_destroy (keyboard_loop stream
         (set_filter is_keyboard (FILTER_KEY_ALL T) (Interception stream)))"
    "capture_mouse T stream w =
       finally_destroy (mouse_loop stream
         (set_filter is_keyboard (FILTER_KEY_DOWN T)
            (set_filter is_mouse (FILTER_MOUSE_LEFT_BUTTON_DOWN T) (Interception stream))))"
    "listen_to_mouse T stream w =
       finally_destroy (mouse_loop stream
         (set_filter is_keyboard (FILTER_KEY_DOWN T)
            (set_filter is_mouse (FILTER_MOUSE_ALL T) (Interception stream))))"
    for stream
    using assms
    by (simp_all add: capture_keyboard_def listen_to_keyboard_def capture_mouse_def
        listen_to_mouse_def)
  have converse_part: "(capture_keyboard T stream w = (Some (Inr device), Some ctx) \<or>
          listen_to_keyboard T stream w = (Some (Inr device), Some ctx) \<longrightarrow>
            (\<exists>earlier esc fault.
               stream = surfaced earlier @ Pending device esc fault # pending ctx \<and>
               code esc = Inr 1 \<and> sent ctx = earlier \<and>
               (\<forall>(d, s)\<in>set (sent ctx). code s \<noteq> Inr 1))) \<and>
         (capture_mouse T stream w = (Some (Inr device), Some ctx) \<or>
          listen_to_mouse T stream w = (Some (Inr device), Some ctx) \<longrightarrow>
            (\<exists>earlier esc fault.
               stream = surfaced earlier @ Pending device esc fault # pending ctx \<and>
               is_keyboard device \<and> code esc = Inr 1 \<and> sent ctx = earlier \<and>
               (\<forall>(d, s)\<in>set (sent ctx). \<not> (is_keyboard d \<and> code s = Inr 1))))"
    unfolding loops
    by (intro conjI impI; elim disjE; (rule kb ms, assumption))
  have total_kb: "(code esc = Inr 1 \<and> (\<forall>(d, s)\<in>set earlier. \<exists>c. code s = Inr c \<and> c \<noteq> 1) \<longrightarrow>
            capture_keyboard T (surfaced earlier @ Pending device esc fault # rest) w =
              (Some (Inr device),
               Some \<lparr>pending = rest, filters = [(is_keyboard, FILTER_KEY_DOWN T)],
                     sent = earlier, destroyed = True\<rparr>) \<and>
            listen_to_keyboard T (surfaced earlier @ Pending device esc fault # rest) w =
              (Some (Inr device),
               Some \<lparr>pending = rest, filters = [(is_keyboard, FILTER_KEY_ALL T)],
                     sent = earlier, destroyed = True\<rparr>))"
    using keyboard_loop_first_escape [of earlier esc device fault rest]
    unfolding loops
    by (simp add: finally_destroy_def destroy_context_def set_filter_def Interception_def)
  have total_ms: "(is_keyboard device \<and> code esc = Inr 1 \<and>
          (\<forall>(d, s)\<in>set earlier. \<not> is_keyboard d \<or> (\<exists>c. code s = Inr c \<and> c \<noteq> 1)) \<longrightarrow>
            capture_mouse T (surfaced earlier @ Pending device esc fault # rest) w =
              (Some (Inr device),
               Some \<lparr>pending = rest,
                     filters = [(is_mouse, FILTER_MOUSE_LEFT_BUTTON_DOWN T),
                                (is_keyboard, FILTER_KEY_DOWN T)],
                     sent = earlier, destroyed = True\<rparr>) \<and>
            listen_to_mouse T (surfaced earlier @ Pending device esc fault # rest) w =
              (Some (Inr device),
               Some \<lparr>pending = rest,
                     filters = [(is_mouse, FILTER_MOUSE_ALL T), (is_keyboard, FILTER_KEY_DOWN T)],
                     sent = earlier, destroyed = True\<rparr>))"
    using mouse_loop_first_escape [of earlier device esc fault rest]
    unfolding loops
    by (simp add: finally_destroy_def destroy_context_def set_filter_def Interception_def)
  show ?thesis
    apply (rule conjI, rule total_kb)
    apply (rule conjI, rule total_ms)
    apply (rule converse_part)
    done
qed

theorem escape_consumed_witness:
  "capture_mouse sample_tables
     [Pending 11 (MouseStroke 1 0 0 5 5 0) None, Pending 2 (KeyStroke 1 0 0) None,
      Pending 11 (MouseStroke 1 0 0 6 6 0) None]
     world_installed =
     (Some (Inr 2),
      Some \<lparr>pending = [Pending 11 (MouseStroke 1 0 0 6 6 0) None],
            filters = [(is_mouse, 1), (is_keyboard, 1)],
            sent = [(11, MouseStroke 1 0 0 5 5 0)], destroyed = True\<rparr>) \<and>
   listen_to_keyboard sample_tables
     [Pending 1 (KeyStroke 50 0 0) None, Pending 1 (KeyStroke 50 1 0) None,
      Pending 3 (KeyStroke 1 0 0) None]
     world_installed =
     (Some (Inr 3),
      Some \<lparr>pending = [], filters = [(is_keyboard, 65535)],
            sent = [(1, KeyStroke 50 0 0), (1, KeyStroke 50 1 0)], destroyed = True\<rparr>)"
proof -
  have f: "FILTER_MOUSE_LEFT_BUTTON_DOWN sample_tables = 1" "FILTER_KEY_DOWN sample_tables = 1"
    "FILTER_KEY_ALL sample_tables = 65535"
    by (simp_all add: sample_tables_def)
  have m: "capture_mouse sample_tables
     [Pending 11 (MouseStroke 1 0 0 5 5 0) None, Pending 2 (KeyStroke 1 0 0) None,
      Pending 11 (MouseStroke 1 0 0 6 6 0) None]
     world_installed =
     (Some (Inr 2),
      Some \<lparr>pending = [Pending 11 (MouseStroke 1 0 0 6 6 0) None],
            filters = [(is_mouse, 1), (is_keyboard, 1)],
            sent = [(11, MouseStroke 1 0 0 5 5 0)], destroyed = True\<rparr>)"
    using escape_consumed [OF installed, where T = sample_tables and device = 2
        and esc = "KeyStroke 1 0 0" and earlier = "[(11, MouseStroke 1 0 0 5 5 0)]"
        and fault = None and rest = "[Pending 11 (MouseStroke 1 0 0 6 6 0) None]",
        THEN conjunct2, THEN conjunct1]
    by (simp add: f surfaced_def is_keyboard_def)
  have k: "listen_to_keyboard sample_tables
     [Pending 1 (KeyStroke 50 0 0) None, Pending 1 (KeyStroke 50 1 0) None,
      Pending 3 (KeyStroke 1 0 0) None]
     world_installed =
     (Some (Inr 3),
      Some \<lparr>pending = [], filters = [(is_keyboard, 65535)],
            sent = [(1, KeyStroke 50 0 0), (1, KeyStroke 50 1 0)], destroyed = True\<rparr>)"
    using escape_consumed [OF installed, where T = sample_tables and device = 3
        and esc = "KeyStroke 1 0 0"
        and earlier = "[(1, KeyStroke 50 0 0), (1, KeyStroke 50 1 0)]"
        and fault = None and rest = "[]", THEN conjunct1]
    by (simp add: f surfaced_def)
  from m k show ?thesis by (rule conjI)
qed

section \<open>Coordinate conversion\<close>

text \<open>
  C8. For every pixel coordinate with \<open>0 \<le> x < W\<close> and \<open>0 \<le> y < H\<close>, the conversion
  \<open>int((0xFFFF * x) / W)\<close>, \<open>int((0xFFFF * y) / H)\<close> succeeds, equals the integer quotient,
  and differs by at most 1 in each axis from the reference \<open>round(65535*x/W)\<close>,
  \<open>round(65535*y/H)\<close>, and from any integer that is nearest to the exact quotient,
  whatever the rule for ties.
\<close>

theorem coordinate_rounding:
  assumes "0 \<le> x" "x < W" "0 \<le> y" "y < H"
  shows "\<exists>cx cy.
           driver_coordinate x W = Inr cx \<and> driver_coordinate y H = Inr cy \<and>
           cx = (0xFFFF * x) div W \<and> cy = (0xFFFF * y) div H \<and>
           \<bar>cx - reference_coordinate x W\<bar> \<le> 1 \<and> \<bar>cy - reference_coordinate y H\<bar> \<le> 1 \<and>
           (\<forall>r. \<bar>real_of_int r - 65535 * real_of_int x / real_of_int W\<bar> \<le> 1 / 2 \<longrightarrow> \<bar>cx - r\<bar> \<le> 1) \<and>
           (\<forall>r. \<bar>real_of_int r - 65535 * real_of_int y / real_of_int H\<bar> \<le> 1 / 2 \<longrightarrow> \<bar>cy - r\<bar> \<le> 1)"
proof -
  have axis: "driver_coordinate v D = Inr \<lfloor>65535 * real_of_int v / real_of_int D\<rfloor> \<and>
              \<lfloor>65535 * real_of_int v / real_of_int D\<rfloor> = (0xFFFF * v) div D \<and>
              \<bar>\<lfloor>65535 * real_of_int v / real_of_int D\<rfloor> - reference_coordinate v D\<bar> \<le> 1 \<and>
              (\<forall>r. \<bar>real_of_int r - 65535 * real_of_int v / real_of_int D\<bar> \<le> 1 / 2 \<longrightarrow>
                     \<bar>\<lfloor>65535 * real_of_int v / real_of_int D\<rfloor> - r\<bar> \<le> 1)"
    if "0 \<le> v" "v < D" for v D
  proof -
    let ?q = "65535 * real_of_int v / real_of_int D"
    have D: "0 < D" using that by simp
    have f1: "driver_coordinate v D = Inr \<lfloor>?q\<rfloor>"
      by (rule driver_coordinate_floor(1) [OF that(1) D])
    have f2: "\<lfloor>?q\<rfloor> = (0xFFFF * v) div D"
      using driver_coordinate_floor [OF that(1) D] by simp
    have f3: "\<bar>\<lfloor>?q\<rfloor> - reference_coordinate v D\<bar> \<le> 1"
      using py_round_floor [of ?q] by (auto simp: reference_coordinate_def)
    have f4: "\<forall>r. \<bar>real_of_int r - ?q\<bar> \<le> 1 / 2 \<longrightarrow> \<bar>\<lfloor>?q\<rfloor> - r\<bar> \<le> 1"
      by (intro allI impI) (rule nearest_floor)
    show ?thesis
      by (intro conjI f1 f2 f3 f4)
  qed
  from axis [OF assms(1,2)] axis [OF assms(3,4)] show ?thesis
    by (rule_tac x = "\<lfloor>65535 * real_of_int x / real_of_int W\<rfloor>" in exI,
        rule_tac x = "\<lfloor>65535 * real_of_int y / real_of_int H\<rfloor>" in exI) simp
qed

theorem coordinate_rounding_witness:
  "driver_coordinate 32 1920 = Inr 1092 \<and> driver_coordinate 32 1080 = Inr 1941 \<and>
   reference_coordinate 32 1920 = 1092 \<and> reference_coordinate 32 1080 = 1942 \<and>
   (\<exists>cx cy. driver_coordinate 32 1920 = Inr cx \<and> driver_coordinate 32 1080 = Inr cy \<and>
      \<bar>cx - reference_coordinate 32 1920\<bar> \<le> 1 \<and> \<bar>cy - reference_coordinate 32 1080\<bar> \<le> 1)"
proof -
  have d: "driver_coordinate 32 1920 = Inr 1092" "driver_coordinate 32 1080 = Inr 1941"
    by (simp_all add: driver_coordinate_def)
  have r: "reference_coordinate 32 1920 = 1092" "reference_coordinate 32 1080 = 1942"
    by (simp_all add: reference_coordinate_def py_round_def Let_def)
  have h: "(0::int) \<le> 32" "(32::int) < 1920" "(32::int) < 1080"
    by simp_all
  from coordinate_rounding [OF h(1) h(2) h(1) h(3)] obtain cx cy where
    "driver_coordinate 32 1920 = Inr cx" "driver_coordinate 32 1080 = Inr cy"
    "\<bar>cx - reference_coordinate 32 1920\<bar> \<le> 1" "\<bar>cy - reference_coordinate 32 1080\<bar> \<le> 1"
    by (elim exE conjE)
  then have "\<exists>cx cy. driver_coordinate 32 1920 = Inr cx \<and> driver_coordinate 32 1080 = Inr cy \<and>
      \<bar>cx - reference_coordinate 32 1920\<bar> \<le> 1 \<and> \<bar>cy - reference_coordinate 32 1080\<bar> \<le> 1"
    by (rule_tac x = cx in exI, rule_tac x = cy in exI) simp
  with d r show ?thesis by simp
qed

end
